theory Spec2Isabelle
  imports Complex_Main
begin

section \<open>JavaScript values\<close>

text \<open>
  The classes \<open>Container\<close>, \<open>Item\<close> and \<open>Box\<close> check their arguments at run time, so
  the arguments are modelled as untyped values. Numbers are rationals (every finite double
  is one; \<open>-0\<close> and \<open>0\<close> are both falsy and are identified), with \<open>NaN\<close> and the two
  infinities apart. Strings are lists of characters. Instances of the three classes are
  references (addresses) into the store below; plain arrays and plain objects are values.
  Functions, symbols and bigints are left out: every check of the source rejects them the
  way it rejects a plain object.
\<close>

datatype jsval =
    JUndefined
  | JNull
  | JBool bool
  | JNum rat
  | JNaN
  | JInfinity bool
  | JStr string
  | JArr "jsval list"
  | JObj "(string \<times> jsval) list"
  | JItem nat
  | JBox nat
  | JContainer nat

text \<open>
  Every \<open>throw\<close> of the source is an error value. \<open>InvalidArgument w\<close> is the \<open>Error\<close>
  with the message \<open>invalid argument for w '...'\<close> (the text of the offending value is
  left out of the model; whether it has a text is not, see \<open>renders\<close> below);
  \<open>MustHaveOneBox\<close> is the \<open>Error\<close> with the message
  \<open>can't delete box, error: item must have at least one box\<close>; \<open>TypeError\<close> is what the
  language raises when a property of \<open>undefined\<close> or \<open>null\<close> is read, and when a value
  that has no text is put into a template literal.
\<close>

datatype error = InvalidArgument string | MustHaveOneBox | TypeError

fun truthy :: "jsval \<Rightarrow> bool" where
  "truthy JUndefined = False"
| "truthy JNull = False"
| "truthy (JBool b) = b"
| "truthy (JNum q) = (q \<noteq> 0)"
| "truthy JNaN = False"
| "truthy (JStr s) = (s \<noteq> [])"
| "truthy _ = True"

fun typeof :: "jsval \<Rightarrow> string" where
  "typeof JUndefined = ''undefined''"
| "typeof (JBool b) = ''boolean''"
| "typeof (JNum q) = ''number''"
| "typeof JNaN = ''number''"
| "typeof (JInfinity b) = ''number''"
| "typeof (JStr s) = ''string''"
| "typeof _ = ''object''"

text \<open>The characters of a string value; read only where \<open>typeof e = ''string''\<close>.\<close>

fun str_val :: "jsval \<Rightarrow> string" where
  "str_val (JStr s) = s"
| "str_val _ = []"

text \<open>The value of a finite number; read only where \<open>Number_isInteger e\<close>.\<close>

fun num_val :: "jsval \<Rightarrow> rat" where
  "num_val (JNum q) = q"
| "num_val _ = 0"

fun Number_isInteger :: "jsval \<Rightarrow> bool" where
  "Number_isInteger (JNum q) = (of_int \<lfloor>q\<rfloor> = q)"
| "Number_isInteger _ = False"

fun instanceof_Item :: "jsval \<Rightarrow> bool" where
  "instanceof_Item (JItem i) = True"
| "instanceof_Item _ = False"

fun instanceof_Box :: "jsval \<Rightarrow> bool" where
  "instanceof_Box (JBox b) = True"
| "instanceof_Box _ = False"

text \<open>The address of a reference.\<close>

fun ref_of :: "jsval \<Rightarrow> nat" where
  "ref_of (JItem i) = i"
| "ref_of (JBox b) = b"
| "ref_of (JContainer c) = c"
| "ref_of _ = 0"

subsection \<open>Strings\<close>

text \<open>
  A character is read as one of the code points U+0000 to U+00FF; strings with other
  code points are outside the model. On these code points \<open>trim\<close> and \<open>toLowerCase\<close>
  are as the language defines them: the white space that \<open>trim\<close> removes at both ends is
  tab, line feed, vertical tab, form feed, carriage return, space and no-break space, and
  \<open>toLowerCase\<close> moves the capitals \<open>A\<close> to \<open>Z\<close>, U+00C0 to U+00D6 and U+00D8 to U+00DE
  32 places on and keeps every other character.
\<close>

definition is_space :: "char \<Rightarrow> bool" where
  "is_space c = (of_char c \<in> {9, 10, 11, 12, 13, 32, 160 :: nat})"

definition trim :: "string \<Rightarrow> string" where
  "trim s = rev (dropWhile is_space (rev (dropWhile is_space s)))"

definition lower_char :: "char \<Rightarrow> char" where
  "lower_char c =
     (let n = of_char c :: nat in
      if (65 \<le> n \<and> n \<le> 90) \<or> (192 \<le> n \<and> n \<le> 214) \<or> (216 \<le> n \<and> n \<le> 222)
      then char_of (n + 32) else c)"

definition toLowerCase :: "string \<Rightarrow> string" where
  "toLowerCase s = map lower_char s"

subsection \<open>Property reads\<close>

text \<open>The decimal name of an array index, as the key of a plain object.\<close>

fun index_key :: "nat \<Rightarrow> string" where
  "index_key n =
     (if n < 10 then [char_of (48 + n)]
      else index_key (n div 10) @ [char_of (48 + n mod 10)])"

text \<open>
  \<open>el[i]\<close>: reading from \<open>undefined\<close> or \<open>null\<close> raises; out of range, and on a value
  with no such property, the read gives \<open>undefined\<close>.
\<close>

fun js_index :: "jsval \<Rightarrow> nat \<Rightarrow> error + jsval" where
  "js_index JUndefined i = Inl TypeError"
| "js_index JNull i = Inl TypeError"
| "js_index (JArr xs) i = Inr (if i < length xs then xs ! i else JUndefined)"
| "js_index (JStr s) i = Inr (if i < length s then JStr [s ! i] else JUndefined)"
| "js_index (JObj ps) i =
     Inr (case map_of ps (index_key i) of Some v \<Rightarrow> v | None \<Rightarrow> JUndefined)"
| "js_index _ i = Inr JUndefined"

text \<open>
  \<open>e.name\<close> for the names the source reads from a raw descriptor and from a data
  record (\<open>collection\<close>, \<open>item_name\<close>, \<open>item_id\<close>, \<open>boxes\<close>): only a plain object can
  have them as properties.
\<close>

fun js_get :: "jsval \<Rightarrow> string \<Rightarrow> error + jsval" where
  "js_get JUndefined k = Inl TypeError"
| "js_get JNull k = Inl TypeError"
| "js_get (JObj ps) k = Inr (case map_of ps k of Some v \<Rightarrow> v | None \<Rightarrow> JUndefined)"
| "js_get _ k = Inr JUndefined"

text \<open>
  \<open>a === b\<close>. Plain arrays and plain objects have no identity in this model; two of them
  are never the same object.
\<close>

definition strict_equals :: "jsval \<Rightarrow> jsval \<Rightarrow> bool" where
  "strict_equals a b =
     (case a of
        JUndefined \<Rightarrow> b = JUndefined
      | JNull \<Rightarrow> b = JNull
      | JBool x \<Rightarrow> b = JBool x
      | JNum x \<Rightarrow> b = JNum x
      | JInfinity x \<Rightarrow> b = JInfinity x
      | JStr x \<Rightarrow> b = JStr x
      | JItem x \<Rightarrow> b = JItem x
      | JBox x \<Rightarrow> b = JBox x
      | JContainer x \<Rightarrow> b = JContainer x
      | _ \<Rightarrow> False)"

text \<open>\<open>Array.prototype.flat()\<close>: the elements that are arrays are spliced in, one level.\<close>

fun flat :: "jsval list \<Rightarrow> jsval list" where
  "flat [] = []"
| "flat (JArr xs # vs) = xs @ flat vs"
| "flat (v # vs) = v # flat vs"

subsection \<open>Template literals\<close>

text \<open>
  \<open>`${e}`\<close> converts \<open>e\<close> to a string. A primitive always has one. An object is asked
  for its \<open>toString\<close>: an instance of the three classes and a plain object without an own
  \<open>toString\<close> inherit the one of \<open>Object.prototype\<close>; an own \<open>toString\<close> of a plain object
  is a value of this model, so it is not callable, the inherited \<open>valueOf\<close> returns the
  object itself, and the conversion raises a \<open>TypeError\<close>. An array joins the strings of
  its elements, with the empty string for \<open>undefined\<close> and \<open>null\<close>, and so raises exactly
  when one of the other elements does.
\<close>

fun renders :: "jsval \<Rightarrow> bool" where
  "renders (JObj ps) = (map_of ps ''toString'' = None)"
| "renders (JArr xs) = list_all (\<lambda>x. x = JUndefined \<or> x = JNull \<or> renders x) xs"
| "renders v = True"

text \<open>
  \<open>throw new Error(`invalid argument for w '${e}'`)\<close>: the message is built first, and
  a \<open>TypeError\<close> from building it is what the statement throws.
\<close>

definition invalid_argument :: "string \<Rightarrow> jsval \<Rightarrow> error" where
  "invalid_argument w e = (if renders e then InvalidArgument w else TypeError)"

section \<open>src/lib/utils.js\<close>

text \<open>
  \<open>e && typeof e === 'string' && e.trim().length > 0\<close> and
  \<open>e && Number.isInteger(e) && e > 0\<close>; both results are only ever used as conditions.
\<close>

definition isNonEmptyString :: "jsval \<Rightarrow> bool" where
  "isNonEmptyString e = (truthy e \<and> typeof e = ''string'' \<and> 0 < length (trim (str_val e)))"

definition isPositiveInt :: "jsval \<Rightarrow> bool" where
  "isPositiveInt e = (truthy e \<and> Number_isInteger e \<and> 0 < num_val e)"

section \<open>The store\<close>

text \<open>
  An \<open>Item\<close>, a \<open>Box\<close> and a \<open>Container\<close> are objects with identity: a box keeps a
  reference to its item, and the sets \<open>#boxes\<close> and \<open>#itemList\<close> compare by reference. The
  store holds the private fields of every object, by address; \<open>new\<close> takes the next address.
  A field holds what its setter assigned: \<open>#collection\<close> and \<open>#item_name\<close> the trimmed
  string, \<open>#description\<close> the string as given, \<open>#item_id\<close> and \<open>#qty\<close> the number.
  The store holds the objects a caller can reach: when a constructor throws, the object
  under construction and what was made for it are referenced by nothing that escapes, and
  the store is left as it was.
\<close>

record item_obj =
  collection :: string
  item_name :: string
  item_id :: rat
  boxes :: "nat list"

record box_obj =
  description :: string
  qty :: rat
  parentItem :: nat

record container_obj =
  itemList :: "nat list"

record store =
  item_heap :: "item_obj list"
  box_heap :: "box_obj list"
  container_heap :: "container_obj list"

definition empty_store :: store where
  "empty_store = \<lparr>item_heap = [], box_heap = [], container_heap = []\<rparr>"

text \<open>
  A JavaScript \<open>Set\<close> of references is the list of its elements in insertion order,
  without repetition.
\<close>

definition Set_add :: "nat \<Rightarrow> nat list \<Rightarrow> nat list" where
  "Set_add x xs = (if x \<in> set xs then xs else xs @ [x])"

definition Set_delete :: "nat \<Rightarrow> nat list \<Rightarrow> nat list" where
  "Set_delete x xs = removeAll x xs"

definition item_at :: "store \<Rightarrow> nat \<Rightarrow> item_obj" where
  "item_at s i = item_heap s ! i"

definition box_at :: "store \<Rightarrow> nat \<Rightarrow> box_obj" where
  "box_at s b = box_heap s ! b"

definition container_at :: "store \<Rightarrow> nat \<Rightarrow> container_obj" where
  "container_at s c = container_heap s ! c"

definition update_item :: "store \<Rightarrow> nat \<Rightarrow> (item_obj \<Rightarrow> item_obj) \<Rightarrow> store" where
  "update_item s i f = s\<lparr>item_heap := (item_heap s)[i := f (item_at s i)]\<rparr>"

definition update_box :: "store \<Rightarrow> nat \<Rightarrow> (box_obj \<Rightarrow> box_obj) \<Rightarrow> store" where
  "update_box s b f = s\<lparr>box_heap := (box_heap s)[b := f (box_at s b)]\<rparr>"

definition update_container ::
  "store \<Rightarrow> nat \<Rightarrow> (container_obj \<Rightarrow> container_obj) \<Rightarrow> store" where
  "update_container s c f =
     s\<lparr>container_heap := (container_heap s)[c := f (container_at s c)]\<rparr>"

section \<open>class Box\<close>

text \<open>
  The setters: each returns the value it assigns to the private field, or throws.
  \<open>#setParentItem\<close> takes any value and keeps it when it is an \<open>Item\<close>.
\<close>

definition Box_description_setter :: "jsval \<Rightarrow> error + string" where
  "Box_description_setter e =
     (if isNonEmptyString e then Inr (str_val e)
      else Inl (invalid_argument ''box.description'' e))"

definition Box_qty_setter :: "jsval \<Rightarrow> error + rat" where
  "Box_qty_setter e =
     (if isPositiveInt e then Inr (num_val e) else Inl (invalid_argument ''box.qty'' e))"

definition Box_setParentItem :: "jsval \<Rightarrow> error + nat" where
  "Box_setParentItem e =
     (if instanceof_Item e then Inr (ref_of e)
      else Inl (invalid_argument ''box.parentItem'' e))"

text \<open>
  \<open>new Box(qty, description, parentItem)\<close>: \<open>qty\<close>, then \<open>description\<close>, then the parent.
  The result is the address of the new box.
\<close>

definition Box_new :: "store \<Rightarrow> jsval \<Rightarrow> jsval \<Rightarrow> jsval \<Rightarrow> (error + nat) \<times> store" where
  "Box_new s q d p =
     (case Box_qty_setter q of
        Inl err \<Rightarrow> (Inl err, s)
      | Inr q' \<Rightarrow>
          (case Box_description_setter d of
             Inl err \<Rightarrow> (Inl err, s)
           | Inr d' \<Rightarrow>
               (case Box_setParentItem p of
                  Inl err \<Rightarrow> (Inl err, s)
                | Inr p' \<Rightarrow>
                    (Inr (length (box_heap s)),
                     s\<lparr>box_heap := box_heap s @
                          [\<lparr>description = d', qty = q', parentItem = p'\<rparr>]\<rparr>))))"

text \<open>\<open>box.description = e\<close> and \<open>box.qty = e\<close> on an existing box.\<close>

definition Box_set_description :: "store \<Rightarrow> nat \<Rightarrow> jsval \<Rightarrow> (error + unit) \<times> store" where
  "Box_set_description s b e =
     (case Box_description_setter e of
        Inl err \<Rightarrow> (Inl err, s)
      | Inr d \<Rightarrow> (Inr (), update_box s b (\<lambda>bx. bx\<lparr>description := d\<rparr>)))"

definition Box_set_qty :: "store \<Rightarrow> nat \<Rightarrow> jsval \<Rightarrow> (error + unit) \<times> store" where
  "Box_set_qty s b e =
     (case Box_qty_setter e of
        Inl err \<Rightarrow> (Inl err, s)
      | Inr q \<Rightarrow> (Inr (), update_box s b (\<lambda>bx. bx\<lparr>qty := q\<rparr>)))"

text \<open>The getters \<open>box.description\<close>, \<open>box.qty\<close> and \<open>getParentItem()\<close>.\<close>

definition Box_get_description :: "store \<Rightarrow> nat \<Rightarrow> jsval" where
  "Box_get_description s b = JStr (description (box_at s b))"

definition Box_get_qty :: "store \<Rightarrow> nat \<Rightarrow> jsval" where
  "Box_get_qty s b = JNum (qty (box_at s b))"

definition Box_getParentItem :: "store \<Rightarrow> nat \<Rightarrow> jsval" where
  "Box_getParentItem s b = JItem (parentItem (box_at s b))"

section \<open>class Item\<close>

definition Item_collection_setter :: "jsval \<Rightarrow> error + string" where
  "Item_collection_setter e =
     (if isNonEmptyString e then Inr (trim (str_val e))
      else Inl (invalid_argument ''collection'' e))"

definition Item_item_name_setter :: "jsval \<Rightarrow> error + string" where
  "Item_item_name_setter e =
     (if isNonEmptyString e then Inr (trim (str_val e))
      else Inl (invalid_argument ''item_name'' e))"

definition Item_item_id_setter :: "jsval \<Rightarrow> error + rat" where
  "Item_item_id_setter e =
     (if isPositiveInt e then Inr (num_val e) else Inl (invalid_argument ''item_id'' e))"

text \<open>
  \<open>addBoxes(...e)\<close>. The \<open>forEach\<close> makes one box after the other and adds it to
  \<open>#boxes\<close>; a throw ends the loop and keeps what the earlier rounds did.
\<close>

fun addBoxes_forEach :: "store \<Rightarrow> nat \<Rightarrow> jsval list \<Rightarrow> (error + unit) \<times> store" where
  "addBoxes_forEach s i [] = (Inr (), s)"
| "addBoxes_forEach s i (el # els) =
     (case js_index el 0 of
        Inl err \<Rightarrow> (Inl err, s)
      | Inr q \<Rightarrow>
          (case js_index el 1 of
             Inl err \<Rightarrow> (Inl err, s)
           | Inr d \<Rightarrow>
               (case Box_new s q d (JItem i) of
                  (Inl err, s') \<Rightarrow> (Inl err, s')
                | (Inr box, s') \<Rightarrow>
                    addBoxes_forEach
                      (update_item s' i (\<lambda>it. it\<lparr>boxes := Set_add box (boxes it)\<rparr>)) i els)))"

definition addBoxes :: "store \<Rightarrow> nat \<Rightarrow> jsval list \<Rightarrow> (error + unit) \<times> store" where
  "addBoxes s i e =
     (if 0 < length e then addBoxes_forEach s i e
      else (Inl (invalid_argument ''boxes'' (JArr e)), s))"

text \<open>
  \<open>new Item(collection, item_name, item_id, ...boxes)\<close>: the three setters in this order,
  then \<open>addBoxes(...boxes)\<close> on the new object, whose \<open>#boxes\<close> starts empty.
\<close>

definition Item_new ::
  "store \<Rightarrow> jsval \<Rightarrow> jsval \<Rightarrow> jsval \<Rightarrow> jsval list \<Rightarrow> (error + nat) \<times> store" where
  "Item_new s c n k bs =
     (case Item_collection_setter c of
        Inl err \<Rightarrow> (Inl err, s)
      | Inr c' \<Rightarrow>
          (case Item_item_name_setter n of
             Inl err \<Rightarrow> (Inl err, s)
           | Inr n' \<Rightarrow>
               (case Item_item_id_setter k of
                  Inl err \<Rightarrow> (Inl err, s)
                | Inr k' \<Rightarrow>
                    (let i = length (item_heap s);
                         s1 = s\<lparr>item_heap := item_heap s @
                                [\<lparr>collection = c', item_name = n', item_id = k', boxes = []\<rparr>]\<rparr>
                     in case addBoxes s1 i bs of
                          (Inl err, s2) \<Rightarrow> (Inl err, s)
                        | (Inr u, s2) \<Rightarrow> (Inr i, s2)))))"

text \<open>\<open>item.collection = e\<close>, \<open>item.item_name = e\<close> and \<open>item.item_id = e\<close> on an existing item.\<close>

definition Item_set_collection :: "store \<Rightarrow> nat \<Rightarrow> jsval \<Rightarrow> (error + unit) \<times> store" where
  "Item_set_collection s i e =
     (case Item_collection_setter e of
        Inl err \<Rightarrow> (Inl err, s)
      | Inr c \<Rightarrow> (Inr (), update_item s i (\<lambda>it. it\<lparr>collection := c\<rparr>)))"

definition Item_set_item_name :: "store \<Rightarrow> nat \<Rightarrow> jsval \<Rightarrow> (error + unit) \<times> store" where
  "Item_set_item_name s i e =
     (case Item_item_name_setter e of
        Inl err \<Rightarrow> (Inl err, s)
      | Inr n \<Rightarrow> (Inr (), update_item s i (\<lambda>it. it\<lparr>item_name := n\<rparr>)))"

definition Item_set_item_id :: "store \<Rightarrow> nat \<Rightarrow> jsval \<Rightarrow> (error + unit) \<times> store" where
  "Item_set_item_id s i e =
     (case Item_item_id_setter e of
        Inl err \<Rightarrow> (Inl err, s)
      | Inr k \<Rightarrow> (Inr (), update_item s i (\<lambda>it. it\<lparr>item_id := k\<rparr>)))"

text \<open>
  \<open>removeBox(e)\<close>: the box must be in \<open>#boxes\<close>; with fewer than two boxes the removal is
  refused.
\<close>

definition removeBox :: "store \<Rightarrow> nat \<Rightarrow> jsval \<Rightarrow> (error + unit) \<times> store" where
  "removeBox s i e =
     (if truthy e \<and> instanceof_Box e \<and> ref_of e \<in> set (boxes (item_at s i)) then
        (if length (boxes (item_at s i)) < 2 then (Inl MustHaveOneBox, s)
         else (Inr (), update_item s i (\<lambda>it. it\<lparr>boxes := Set_delete (ref_of e) (boxes it)\<rparr>)))
      else (Inl (invalid_argument ''item.removeBox'' e), s))"

text \<open>\<open>box.remove()\<close> is \<open>this.#parentItem.removeBox(this)\<close>.\<close>

definition Box_remove :: "store \<Rightarrow> nat \<Rightarrow> (error + unit) \<times> store" where
  "Box_remove s b = removeBox s (parentItem (box_at s b)) (JBox b)"

text \<open>The three views of an item.\<close>

definition Item_getDataAsOBJ :: "store \<Rightarrow> nat \<Rightarrow> jsval" where
  "Item_getDataAsOBJ s i =
     JObj [(''collection'', JStr (collection (item_at s i))),
           (''item_name'', JStr (item_name (item_at s i))),
           (''item_id'', JNum (item_id (item_at s i))),
           (''boxes'', JArr (map JBox (boxes (item_at s i))))]"

definition Item_getDataAsJson :: "store \<Rightarrow> nat \<Rightarrow> jsval" where
  "Item_getDataAsJson s i =
     JObj [(''collection'', JStr (collection (item_at s i))),
           (''item_name'', JStr (item_name (item_at s i))),
           (''item_id'', JNum (item_id (item_at s i))),
           (''boxes'', JArr (map (\<lambda>v. JObj [(''qty'', Box_get_qty s v),
                                               (''description'', Box_get_description s v)])
                              (boxes (item_at s i))))]"

definition Item_getDataAsTable :: "store \<Rightarrow> nat \<Rightarrow> jsval" where
  "Item_getDataAsTable s i =
     JArr (map (\<lambda>el. JObj [(''collection'', JStr (collection (item_at s i))),
                            (''item_name'', JStr (item_name (item_at s i))),
                            (''item_id'', JNum (item_id (item_at s i))),
                            (''box_qty'', Box_get_qty s el),
                            (''box_description'', Box_get_description s el)])
               (boxes (item_at s i)))"

text \<open>
  \<open>getItemData(e = "obj")\<close>: a missing argument (\<open>undefined\<close>) takes the default; a format
  that is none of the three gives \<open>null\<close>.
\<close>

definition getItemData :: "store \<Rightarrow> nat \<Rightarrow> jsval \<Rightarrow> error + jsval" where
  "getItemData s i e0 =
     (let e = (if e0 = JUndefined then JStr ''obj'' else e0) in
      if \<not> isNonEmptyString e then Inl (invalid_argument ''item.getItemData'' e)
      else let f = toLowerCase (str_val e) in
        Inr (if f = ''obj'' then Item_getDataAsOBJ s i
             else if f = ''json'' then Item_getDataAsJson s i
             else if f = ''table'' then Item_getDataAsTable s i
             else JNull))"

text \<open>\<open>getBoxesByName(e)\<close>: the boxes whose description is the trimmed argument.\<close>

definition getBoxesByName :: "store \<Rightarrow> nat \<Rightarrow> jsval \<Rightarrow> error + jsval" where
  "getBoxesByName s i e =
     (if \<not> isNonEmptyString e then Inl (invalid_argument ''item.getBoxesByName'' e)
      else Inr (JArr (map JBox
             (filter (\<lambda>v. strict_equals (Box_get_description s v) (JStr (trim (str_val e))))
                (boxes (item_at s i))))))"

section \<open>class Container\<close>

text \<open>
  \<open>map\<close> and \<open>filter\<close> with a callback that may throw: the first throw ends the traversal.
\<close>

fun map_throwing :: "('a \<Rightarrow> error + 'b) \<Rightarrow> 'a list \<Rightarrow> error + 'b list" where
  "map_throwing f [] = Inr []"
| "map_throwing f (x # xs) =
     (case f x of
        Inl err \<Rightarrow> Inl err
      | Inr y \<Rightarrow> (case map_throwing f xs of Inl err \<Rightarrow> Inl err | Inr ys \<Rightarrow> Inr (y # ys)))"

fun filter_throwing :: "('a \<Rightarrow> error + bool) \<Rightarrow> 'a list \<Rightarrow> error + 'a list" where
  "filter_throwing f [] = Inr []"
| "filter_throwing f (x # xs) =
     (case f x of
        Inl err \<Rightarrow> Inl err
      | Inr keep \<Rightarrow>
          (case filter_throwing f xs of
             Inl err \<Rightarrow> Inl err
           | Inr ys \<Rightarrow> Inr (if keep then x # ys else ys)))"

text \<open>
  \<open>addItems(...e)\<close>: an \<open>Item\<close> is added as it is; of anything else the four properties are
  read and \<open>new Item(e.collection, e.item_name, e.item_id, e.boxes)\<close> is added. The
  constructor's rest parameter receives the one value \<open>e.boxes\<close>.
\<close>

fun addItems_forEach :: "store \<Rightarrow> nat \<Rightarrow> jsval list \<Rightarrow> (error + unit) \<times> store" where
  "addItems_forEach s c [] = (Inr (), s)"
| "addItems_forEach s c (e # es) =
     (if instanceof_Item e then
        addItems_forEach
          (update_container s c (\<lambda>co. co\<lparr>itemList := Set_add (ref_of e) (itemList co)\<rparr>)) c es
      else
        (case js_get e ''collection'' of
           Inl err \<Rightarrow> (Inl err, s)
         | Inr co \<Rightarrow>
        (case js_get e ''item_name'' of
           Inl err \<Rightarrow> (Inl err, s)
         | Inr nm \<Rightarrow>
        (case js_get e ''item_id'' of
           Inl err \<Rightarrow> (Inl err, s)
         | Inr k \<Rightarrow>
        (case js_get e ''boxes'' of
           Inl err \<Rightarrow> (Inl err, s)
         | Inr bx \<Rightarrow>
        (case Item_new s co nm k [bx] of
           (Inl err, s') \<Rightarrow> (Inl err, s')
         | (Inr item, s') \<Rightarrow>
             addItems_forEach
               (update_container s' c (\<lambda>co. co\<lparr>itemList := Set_add item (itemList co)\<rparr>))
               c es))))))"

definition addItems :: "store \<Rightarrow> nat \<Rightarrow> jsval list \<Rightarrow> (error + unit) \<times> store" where
  "addItems s c e = addItems_forEach s c e"

text \<open>\<open>new Container(...e)\<close>: \<open>addItems(...e)\<close> on the new object, whose set starts empty.\<close>

definition Container_new :: "store \<Rightarrow> jsval list \<Rightarrow> (error + nat) \<times> store" where
  "Container_new s e =
     (let c = length (container_heap s);
          s1 = s\<lparr>container_heap := container_heap s @ [\<lparr>itemList = []\<rparr>]\<rparr>
      in case addItems s1 c e of
           (Inl err, s2) \<Rightarrow> (Inl err, s)
         | (Inr u, s2) \<Rightarrow> (Inr c, s2))"

text \<open>\<open>getItemsById(e)\<close>: the filter calls \<open>el.getItemData()\<close> with no argument.\<close>

definition getItemsById :: "store \<Rightarrow> nat \<Rightarrow> jsval \<Rightarrow> error + jsval" where
  "getItemsById s c e =
     (if isPositiveInt e then
        (case filter_throwing
                (\<lambda>el. case getItemData s el JUndefined of
                         Inl err \<Rightarrow> Inl err
                       | Inr d \<Rightarrow>
                           (case js_get d ''item_id'' of
                              Inl err \<Rightarrow> Inl err
                            | Inr v \<Rightarrow> Inr (strict_equals v e)))
                (itemList (container_at s c)) of
           Inl err \<Rightarrow> Inl err
         | Inr els \<Rightarrow> Inr (JArr (map JItem els)))
      else Inl (invalid_argument ''Container.getItemsById'' e))"

definition deleteItem :: "store \<Rightarrow> nat \<Rightarrow> jsval \<Rightarrow> (error + unit) \<times> store" where
  "deleteItem s c e =
     (if truthy e \<and> instanceof_Item e \<and> ref_of e \<in> set (itemList (container_at s c)) then
        (Inr (),
         update_container s c (\<lambda>co. co\<lparr>itemList := Set_delete (ref_of e) (itemList co)\<rparr>))
      else (Inl (invalid_argument ''Container.deleteItem'' e), s))"

definition Container_getDataAsObj :: "store \<Rightarrow> nat \<Rightarrow> error + jsval" where
  "Container_getDataAsObj s c = Inr (JArr (map JItem (itemList (container_at s c))))"

definition Container_getDataAsJson :: "store \<Rightarrow> nat \<Rightarrow> error + jsval" where
  "Container_getDataAsJson s c =
     (case map_throwing (\<lambda>el. getItemData s el (JStr ''json'')) (itemList (container_at s c)) of
        Inl err \<Rightarrow> Inl err
      | Inr vs \<Rightarrow> Inr (JArr vs))"

definition Container_getDataAsTable :: "store \<Rightarrow> nat \<Rightarrow> error + jsval" where
  "Container_getDataAsTable s c =
     (case map_throwing (\<lambda>el. getItemData s el (JStr ''table'')) (itemList (container_at s c)) of
        Inl err \<Rightarrow> Inl err
      | Inr vs \<Rightarrow> Inr (JArr (flat vs)))"

definition getContainerData :: "store \<Rightarrow> nat \<Rightarrow> jsval \<Rightarrow> error + jsval" where
  "getContainerData s c e =
     (if \<not> isNonEmptyString e then Inl (invalid_argument ''Container.getContainerData'' e)
      else let f = toLowerCase (str_val e) in
        if f = ''obj'' then Container_getDataAsObj s c
        else if f = ''json'' then Container_getDataAsJson s c
        else if f = ''table'' then Container_getDataAsTable s c
        else Inr JNull)"

section \<open>Programs over the three classes\<close>

text \<open>
  A client of the module holds references to objects it has made and calls the exported
  constructors and the public methods and setters on them, with any arguments. A value it
  passes can only refer to objects that exist.
\<close>

fun val_ok :: "store \<Rightarrow> jsval \<Rightarrow> bool" where
  "val_ok s (JItem i) = (i < length (item_heap s))"
| "val_ok s (JBox b) = (b < length (box_heap s))"
| "val_ok s (JContainer c) = (c < length (container_heap s))"
| "val_ok s (JArr xs) = list_all (val_ok s) xs"
| "val_ok s (JObj ps) = list_all (\<lambda>p. val_ok s (snd p)) ps"
| "val_ok s _ = True"

datatype call =
    NewItem jsval jsval jsval "jsval list"
  | NewBox jsval jsval jsval
  | NewContainer "jsval list"
  | CallAddItems nat "jsval list"
  | CallDeleteItem nat jsval
  | SetCollection nat jsval
  | SetItemName nat jsval
  | SetItemId nat jsval
  | CallAddBoxes nat "jsval list"
  | CallRemoveBox nat jsval
  | SetQty nat jsval
  | SetDescription nat jsval
  | CallBoxRemove nat

text \<open>The values a call passes, and whether its receiver exists.\<close>

fun call_args :: "call \<Rightarrow> jsval list" where
  "call_args (NewItem c n k bs) = c # n # k # bs"
| "call_args (NewBox q d p) = [q, d, p]"
| "call_args (NewContainer es) = es"
| "call_args (CallAddItems c es) = es"
| "call_args (CallDeleteItem c e) = [e]"
| "call_args (SetCollection i e) = [e]"
| "call_args (SetItemName i e) = [e]"
| "call_args (SetItemId i e) = [e]"
| "call_args (CallAddBoxes i es) = es"
| "call_args (CallRemoveBox i e) = [e]"
| "call_args (SetQty b e) = [e]"
| "call_args (SetDescription b e) = [e]"
| "call_args (CallBoxRemove b) = []"

fun receiver :: "call \<Rightarrow> jsval" where
  "receiver (NewItem c n k bs) = JUndefined"
| "receiver (NewBox q d p) = JUndefined"
| "receiver (NewContainer es) = JUndefined"
| "receiver (CallAddItems c es) = JContainer c"
| "receiver (CallDeleteItem c e) = JContainer c"
| "receiver (SetCollection i e) = JItem i"
| "receiver (SetItemName i e) = JItem i"
| "receiver (SetItemId i e) = JItem i"
| "receiver (CallAddBoxes i es) = JItem i"
| "receiver (CallRemoveBox i e) = JItem i"
| "receiver (SetQty b e) = JBox b"
| "receiver (SetDescription b e) = JBox b"
| "receiver (CallBoxRemove b) = JBox b"

text \<open>The store after a call, whether it returned or threw.\<close>

fun perform :: "store \<Rightarrow> call \<Rightarrow> store" where
  "perform s (NewItem c n k bs) = snd (Item_new s c n k bs)"
| "perform s (NewBox q d p) = snd (Box_new s q d p)"
| "perform s (NewContainer es) = snd (Container_new s es)"
| "perform s (CallAddItems c es) = snd (addItems s c es)"
| "perform s (CallDeleteItem c e) = snd (deleteItem s c e)"
| "perform s (SetCollection i e) = snd (Item_set_collection s i e)"
| "perform s (SetItemName i e) = snd (Item_set_item_name s i e)"
| "perform s (SetItemId i e) = snd (Item_set_item_id s i e)"
| "perform s (CallAddBoxes i es) = snd (addBoxes s i es)"
| "perform s (CallRemoveBox i e) = snd (removeBox s i e)"
| "perform s (SetQty b e) = snd (Box_set_qty s b e)"
| "perform s (SetDescription b e) = snd (Box_set_description s b e)"
| "perform s (CallBoxRemove b) = snd (Box_remove s b)"

definition exec :: "store \<Rightarrow> call \<Rightarrow> store" where
  "exec s k =
     (if val_ok s (receiver k) \<and> list_all (val_ok s) (call_args k) then perform s k else s)"

definition run :: "call list \<Rightarrow> store" where
  "run ks = foldl exec empty_store ks"

section \<open>Definitions for the statements\<close>

text \<open>
  The container view in the words of the specification: every contained item's
  \<open>getItemData(format)\<close> result, concatenated (an array result contributes its elements,
  any other result itself).
\<close>

definition elements_of :: "jsval \<Rightarrow> jsval list" where
  "elements_of v = (case v of JArr xs \<Rightarrow> xs | _ \<Rightarrow> [v])"

definition concat_item_data :: "store \<Rightarrow> nat \<Rightarrow> jsval \<Rightarrow> error + jsval" where
  "concat_item_data s c e =
     (case map_throwing (\<lambda>el. getItemData s el e) (itemList (container_at s c)) of
        Inl err \<Rightarrow> Inl err
      | Inr vs \<Rightarrow> Inr (JArr (concat (map elements_of vs))))"

text \<open>
  A small program and the store it leaves: two items with the same \<open>item_id\<close>, the first
  with two boxes, the second with one, and a container holding both.
\<close>

definition example_calls :: "call list" where
  "example_calls =
     [NewItem (JStr '' A '') (JStr ''chair'') (JNum 3)
        [JArr [JNum 5, JStr ''small''], JArr [JNum 10, JStr ''large'']],
      NewItem (JStr ''B'') (JStr ''desk'') (JNum 3) [JArr [JNum 1, JStr '' wide '']],
      NewContainer [JItem 0, JItem 1]]"

definition example_store :: store where
  "example_store =
     \<lparr>item_heap =
        [\<lparr>collection = ''A'', item_name = ''chair'', item_id = 3, boxes = [0, 1]\<rparr>,
         \<lparr>collection = ''B'', item_name = ''desk'', item_id = 3, boxes = [2]\<rparr>],
      box_heap =
        [\<lparr>description = ''small'', qty = 5, parentItem = 0\<rparr>,
         \<lparr>description = ''large'', qty = 10, parentItem = 0\<rparr>,
         \<lparr>description = '' wide '', qty = 1, parentItem = 1\<rparr>],
      container_heap = [\<lparr>itemList = [0, 1]\<rparr>]\<rparr>"

text \<open>
  A box descriptor \<open>el\<close> is valid when \<open>new Box(el[0], el[1], item)\<close> returns: both reads
  succeed, \<open>el[0]\<close> is a positive integer and \<open>el[1]\<close> is a string that is non-empty after
  trimming. \<open>descriptor_box\<close> is the box the constructor then makes.
\<close>

definition box_descriptor_ok :: "jsval \<Rightarrow> bool" where
  "box_descriptor_ok el =
     (case js_index el 0 of
        Inl err \<Rightarrow> False
      | Inr q \<Rightarrow>
          (case js_index el 1 of
             Inl err \<Rightarrow> False
           | Inr d \<Rightarrow> isPositiveInt q \<and> isNonEmptyString d))"

definition descriptor_part :: "jsval \<Rightarrow> nat \<Rightarrow> jsval" where
  "descriptor_part el k = (case js_index el k of Inl err \<Rightarrow> JUndefined | Inr v \<Rightarrow> v)"

definition descriptor_box :: "nat \<Rightarrow> jsval \<Rightarrow> box_obj" where
  "descriptor_box i el =
     \<lparr>description = str_val (descriptor_part el 1),
      qty = num_val (descriptor_part el 0),
      parentItem = i\<rparr>"

text \<open>
  The store after boxes for the descriptors \<open>els\<close> were made, in order, and added to the
  set of item \<open>i\<close>: the new boxes take the next addresses.
\<close>

definition with_boxes :: "store \<Rightarrow> nat \<Rightarrow> jsval list \<Rightarrow> store" where
  "with_boxes s i els =
     s\<lparr>box_heap := box_heap s @ map (descriptor_box i) els,
       item_heap := (item_heap s)
         [i := (item_at s i)\<lparr>boxes := boxes (item_at s i) @
                 [length (box_heap s) ..< length (box_heap s) + length els]\<rparr>]\<rparr>"

text \<open>
  The shape of a store that the classes maintain: the set of an item has no repetition,
  every box in it exists and points back to the item, and no item is without a box.
\<close>

definition item_ok :: "store \<Rightarrow> nat \<Rightarrow> bool" where
  "item_ok s i =
     (distinct (boxes (item_at s i)) \<and>
      (\<forall>b \<in> set (boxes (item_at s i)). b < length (box_heap s) \<and> parentItem (box_at s b) = i))"

definition wf_store :: "store \<Rightarrow> bool" where
  "wf_store s = (\<forall>i < length (item_heap s). boxes (item_at s i) \<noteq> [] \<and> item_ok s i)"

text \<open>
  The example program followed by three removals: one that succeeds and two that are
  refused.
\<close>

definition example_removals :: "call list" where
  "example_removals =
     example_calls @ [CallRemoveBox 0 (JBox 0), CallBoxRemove 1, CallBoxRemove 2]"

text \<open>
  A raw descriptor in the shape the specification gives: \<open>boxes\<close> is a list of
  \<open>[qty, description]\<close> pairs.
\<close>

definition list_descriptor :: jsval where
  "list_descriptor =
     JObj [(''collection'', JStr ''A''), (''item_name'', JStr ''chair''),
           (''item_id'', JNum 1),
           (''boxes'', JArr [JArr [JNum 5, JStr ''small''], JArr [JNum 10, JStr ''large'']])]"

text \<open>A property of a raw descriptor, \<open>undefined\<close> where the read throws.\<close>

definition raw_field :: "jsval \<Rightarrow> string \<Rightarrow> jsval" where
  "raw_field e k = (case js_get e k of Inl err \<Rightarrow> JUndefined | Inr v \<Rightarrow> v)"

section \<open>Strings and formats\<close>

lemma run_example_calls: "run example_calls = example_store"
  by code_simp

lemma trim_nonempty_arg: "trim f \<noteq> [] \<Longrightarrow> f \<noteq> []"
  by (auto simp: trim_def)

lemma isNonEmptyString_JStr: "isNonEmptyString (JStr f) = (trim f \<noteq> [])"
  by (auto simp: isNonEmptyString_def trim_def)

lemma isNonEmptyString_iff: "isNonEmptyString e \<longleftrightarrow> (\<exists>f. e = JStr f \<and> trim f \<noteq> [])"
  by (cases e) (auto simp: isNonEmptyString_def trim_def)

lemma is_space_lower_char: "is_space (lower_char c) = is_space c"
  by (auto simp: is_space_def lower_char_def Let_def)

lemma trim_toLowerCase: "trim (toLowerCase f) = toLowerCase (trim f)"
  by (simp add: trim_def toLowerCase_def dropWhile_map rev_map comp_def is_space_lower_char)

lemma trim_format_names:
  "trim ''obj'' = ''obj''" "trim ''json'' = ''json''" "trim ''table'' = ''table''"
  by code_simp+

lemma toLowerCase_format_names:
  "toLowerCase ''obj'' = ''obj''" "toLowerCase ''json'' = ''json''"
  "toLowerCase ''table'' = ''table''"
  by code_simp+

lemma format_name_nonempty:
  assumes "toLowerCase f \<in> {''obj'', ''json'', ''table''}"
  shows "isNonEmptyString (JStr f)"
proof -
  have "trim (toLowerCase f) \<noteq> []"
    using assms trim_format_names by auto
  then have "toLowerCase (trim f) \<noteq> []"
    by (simp add: trim_toLowerCase)
  then have "trim f \<noteq> []"
    by (auto simp: toLowerCase_def)
  then show ?thesis
    by (simp add: isNonEmptyString_JStr)
qed

lemma getItemData_JStr:
  "getItemData s i (JStr f) =
     (if trim f = [] then Inl (InvalidArgument ''item.getItemData'')
      else Inr (if toLowerCase f = ''obj'' then Item_getDataAsOBJ s i
                else if toLowerCase f = ''json'' then Item_getDataAsJson s i
                else if toLowerCase f = ''table'' then Item_getDataAsTable s i
                else JNull))"
  by (simp add: getItemData_def isNonEmptyString_JStr Let_def invalid_argument_def)

lemma getItemData_default: "getItemData s i JUndefined = Inr (Item_getDataAsOBJ s i)"
  by (simp add: getItemData_def isNonEmptyString_JStr Let_def trim_format_names
      toLowerCase_format_names)

lemma getContainerData_JStr:
  "getContainerData s c (JStr f) =
     (if trim f = [] then Inl (InvalidArgument ''Container.getContainerData'')
      else if toLowerCase f = ''obj'' then Container_getDataAsObj s c
      else if toLowerCase f = ''json'' then Container_getDataAsJson s c
      else if toLowerCase f = ''table'' then Container_getDataAsTable s c
      else Inr JNull)"
  by (simp add: getContainerData_def isNonEmptyString_JStr Let_def invalid_argument_def)

section \<open>The views\<close>

text \<open>
  C7. For an item with exactly two boxes, \<open>getItemData("table")\<close> returns exactly two
  records, one per box in order; each holds the item's \<open>collection\<close>, \<open>item_name\<close> and
  \<open>item_id\<close> and that box's quantity and description under the keys \<open>box_qty\<close> and
  \<open>box_description\<close>.
\<close>

theorem C7_table_of_two_boxes:
  assumes "boxes (item_at s i) = [b1, b2]"
  shows "getItemData s i (JStr ''table'') =
     Inr (JArr
       [JObj [(''collection'', JStr (collection (item_at s i))),
              (''item_name'', JStr (item_name (item_at s i))),
              (''item_id'', JNum (item_id (item_at s i))),
              (''box_qty'', JNum (qty (box_at s b1))),
              (''box_description'', JStr (description (box_at s b1)))],
        JObj [(''collection'', JStr (collection (item_at s i))),
              (''item_name'', JStr (item_name (item_at s i))),
              (''item_id'', JNum (item_id (item_at s i))),
              (''box_qty'', JNum (qty (box_at s b2))),
              (''box_description'', JStr (description (box_at s b2)))]])"
  using assms
  by (simp add: getItemData_JStr trim_format_names toLowerCase_format_names
      Item_getDataAsTable_def Box_get_qty_def Box_get_description_def)

theorem C7_table_of_two_boxes_witness:
  "boxes (item_at example_store 0) = [0, 1] \<and>
   getItemData example_store 0 (JStr ''table'') =
     Inr (JArr
       [JObj [(''collection'', JStr ''A''), (''item_name'', JStr ''chair''),
              (''item_id'', JNum 3), (''box_qty'', JNum 5),
              (''box_description'', JStr ''small'')],
        JObj [(''collection'', JStr ''A''), (''item_name'', JStr ''chair''),
              (''item_id'', JNum 3), (''box_qty'', JNum 10),
              (''box_description'', JStr ''large'')]])"
proof -
  have h: "boxes (item_at example_store 0) = [0, 1]"
    by (simp add: example_store_def item_at_def)
  show ?thesis
    using h C7_table_of_two_boxes [OF h]
    by (simp add: example_store_def item_at_def box_at_def)
qed

text \<open>
  C5 as stated fails: a string of one space is a non-empty string and names none of the
  three formats, and both accessors throw on it.
\<close>

theorem C5_blank_format_counterexample:
  "'' '' \<noteq> [] \<and> toLowerCase '' '' \<notin> {''obj'', ''json'', ''table''} \<and>
   getItemData example_store 0 (JStr '' '') = Inl (InvalidArgument ''item.getItemData'') \<and>
   getContainerData example_store 0 (JStr '' '') =
     Inl (InvalidArgument ''Container.getContainerData'')"
  by code_simp

text \<open>
  C5, amended. For every string that is non-empty after trimming and is none of
  \<open>obj\<close>, \<open>json\<close>, \<open>table\<close> after lower-casing, \<open>getItemData\<close> and \<open>getContainerData\<close>
  return \<open>null\<close> and do not throw.
\<close>

theorem C5_unknown_format_null:
  assumes "trim f \<noteq> []" and "toLowerCase f \<notin> {''obj'', ''json'', ''table''}"
  shows "getItemData s i (JStr f) = Inr JNull \<and> getContainerData s c (JStr f) = Inr JNull"
  using assms by (simp add: getItemData_JStr getContainerData_JStr)

theorem C5_unknown_format_null_witness:
  "trim ''CSV'' \<noteq> [] \<and> toLowerCase ''CSV'' \<notin> {''obj'', ''json'', ''table''} \<and>
   getItemData example_store 0 (JStr ''CSV'') = Inr JNull \<and>
   getContainerData example_store 0 (JStr ''CSV'') = Inr JNull"
proof -
  have h1: "trim ''CSV'' \<noteq> []" by code_simp
  have h2: "toLowerCase ''CSV'' \<notin> {''obj'', ''json'', ''table''}" by code_simp
  show ?thesis
    using h1 h2 C5_unknown_format_null [OF h1 h2, of example_store 0 0] by simp
qed

section \<open>Container: lookup and deletion\<close>

lemma isPositiveInt_iff: "isPositiveInt e \<longleftrightarrow> (\<exists>n::int. 0 < n \<and> e = JNum (of_int n))"
proof
  assume h: "isPositiveInt e"
  then obtain q where e: "e = JNum q"
    by (cases e) (auto simp: isPositiveInt_def)
  with h obtain n :: int where q: "q = of_int n" and pos: "0 < q"
    by (auto simp: isPositiveInt_def)
  with pos have "0 < n" by simp
  with e q show "\<exists>n::int. 0 < n \<and> e = JNum (of_int n)" by blast
next
  assume "\<exists>n::int. 0 < n \<and> e = JNum (of_int n)"
  then show "isPositiveInt e"
    by (auto simp: isPositiveInt_def)
qed

lemma filter_throwing_total:
  "(\<And>x. f x = Inr (p x)) \<Longrightarrow> filter_throwing f xs = Inr (filter p xs)"
  by (induction xs) auto

lemma map_throwing_total:
  "(\<And>x. f x = Inr (g x)) \<Longrightarrow> map_throwing f xs = Inr (map g xs)"
  by (induction xs) auto

lemma getItemsById_positive:
  assumes "0 < (n::int)"
  shows "getItemsById s c (JNum (of_int n)) =
    Inr (JArr (map JItem
      (filter (\<lambda>el. item_id (item_at s el) = of_int n) (itemList (container_at s c)))))"
proof -
  have p: "isPositiveInt (JNum (of_int n))"
    using assms isPositiveInt_iff by blast
  have f: "\<And>el. (case getItemData s el JUndefined of
                    Inl err \<Rightarrow> Inl err
                  | Inr d \<Rightarrow>
                      (case js_get d ''item_id'' of
                         Inl err \<Rightarrow> Inl err
                       | Inr v \<Rightarrow> Inr (strict_equals v (JNum (of_int n)))))
             = Inr (item_id (item_at s el) = of_int n)"
    by (auto simp: getItemData_default Item_getDataAsOBJ_def strict_equals_def)
  show ?thesis
    by (simp add: getItemsById_def p filter_throwing_total [OF f])
qed

text \<open>
  C8 as stated fails: a plain object with an own \<open>toString\<close> that is not a function is not
  a positive integer, and \<open>getItemsById\<close> throws a \<open>TypeError\<close> on it, raised while the
  message of the invalid-argument error is built.
\<close>

theorem C8_unrenderable_id_counterexample:
  "getItemsById example_store 0 (JObj [(''toString'', JNum 1)]) = Inl TypeError \<and>
   getItemsById example_store 0 (JObj [(''toString'', JNum 1)]) \<noteq>
     Inl (InvalidArgument ''Container.getItemsById'')"
  by code_simp

text \<open>
  C8, amended. \<open>getItemsById(e)\<close> throws for every value that is not a positive integer:
  the invalid-argument error when the value has a text for the message, the \<open>TypeError\<close>
  of the template literal when it has none. For a positive integer it returns, in the
  set's order, exactly the contained items whose \<open>item_id\<close> is that number; a container
  holding two distinct items with the same \<open>item_id\<close> returns both.
\<close>

theorem C8_getItemsById:
  "(\<not> (\<exists>m::int. 0 < m \<and> e = JNum (of_int m)) \<longrightarrow>
      getItemsById s c e =
        Inl (if renders e then InvalidArgument ''Container.getItemsById'' else TypeError)) \<and>
   (0 < (n::int) \<longrightarrow>
      getItemsById s c (JNum (of_int n)) =
        Inr (JArr (map JItem
          (filter (\<lambda>el. item_id (item_at s el) = of_int n) (itemList (container_at s c)))))) \<and>
   (0 < n \<and> i \<noteq> j \<and> itemList (container_at s c) = [i, j] \<and>
    item_id (item_at s i) = of_int n \<and> item_id (item_at s j) = of_int n \<longrightarrow>
      getItemsById s c (JNum (of_int n)) = Inr (JArr [JItem i, JItem j]))"
proof -
  have a: "\<not> (\<exists>m::int. 0 < m \<and> e = JNum (of_int m)) \<longrightarrow>
      getItemsById s c e =
        Inl (if renders e then InvalidArgument ''Container.getItemsById'' else TypeError)"
    by (auto simp: getItemsById_def isPositiveInt_iff invalid_argument_def)
  have b: "0 < n \<longrightarrow>
      getItemsById s c (JNum (of_int n)) =
        Inr (JArr (map JItem
          (filter (\<lambda>el. item_id (item_at s el) = of_int n) (itemList (container_at s c)))))"
    by (simp add: getItemsById_positive)
  have c: "0 < n \<and> i \<noteq> j \<and> itemList (container_at s c) = [i, j] \<and>
    item_id (item_at s i) = of_int n \<and> item_id (item_at s j) = of_int n \<longrightarrow>
      getItemsById s c (JNum (of_int n)) = Inr (JArr [JItem i, JItem j])"
    by (simp add: getItemsById_positive)
  from a b c show ?thesis by blast
qed

theorem C8_getItemsById_witness:
  "getItemsById example_store 0 (JStr ''3'') = Inl (InvalidArgument ''Container.getItemsById'') \<and>
   getItemsById example_store 0 (JNum (-3)) = Inl (InvalidArgument ''Container.getItemsById'') \<and>
   getItemsById example_store 0 (JArr [JObj [(''toString'', JNull)]]) = Inl TypeError \<and>
   (0::int) < 3 \<and> (0::nat) \<noteq> 1 \<and> itemList (container_at example_store 0) = [0, 1] \<and>
   item_id (item_at example_store 0) = 3 \<and> item_id (item_at example_store 1) = 3 \<and>
   getItemsById example_store 0 (JNum 3) = Inr (JArr [JItem 0, JItem 1]) \<and>
   getItemsById example_store 0 (JNum 4) = Inr (JArr [])"
proof -
  have neg: "\<not> (\<exists>m::int. 0 < m \<and> JNum (- 3) = JNum (of_int m))"
  proof
    assume "\<exists>m::int. 0 < m \<and> JNum (- 3) = JNum (of_int m)"
    then obtain m :: int where "0 < m" and "(- 3 :: rat) = of_int m"
      by auto
    then have "(of_int m :: rat) < 0" by simp
    then have "m < 0" by simp
    with \<open>0 < m\<close> show False by simp
  qed
  have l: "itemList (container_at example_store 0) = [0, 1]"
    by (simp add: example_store_def container_at_def)
  have i0: "item_id (item_at example_store 0) = 3" and i1: "item_id (item_at example_store 1) = 3"
    by (simp_all add: example_store_def item_at_def)
  show ?thesis
    using C8_getItemsById [of "JStr ''3''" example_store 0 3 0 1]
          C8_getItemsById [of "JNum (- 3)" example_store 0 4 0 1]
          C8_getItemsById [of "JArr [JObj [(''toString'', JNull)]]" example_store 0 3 0 1]
          neg l i0 i1
    by (simp add: example_store_def item_at_def container_at_def)
qed

text \<open>
  C9 as stated fails: a plain object with an own \<open>toString\<close> that is not a function is not
  an item of the set, and \<open>deleteItem\<close> throws a \<open>TypeError\<close> on it, raised while the
  message of the invalid-argument error is built.
\<close>

theorem C9_unrenderable_argument_counterexample:
  "deleteItem example_store 0 (JObj [(''toString'', JNum 1)]) = (Inl TypeError, example_store) \<and>
   fst (deleteItem example_store 0 (JObj [(''toString'', JNum 1)])) \<noteq>
     Inl (InvalidArgument ''Container.deleteItem'')"
  by code_simp

text \<open>
  C9, amended. \<open>deleteItem(x)\<close> throws whenever \<open>x\<close> is not an item of the container's
  set, and then the store is unchanged: the invalid-argument error when \<open>x\<close> has a text for
  the message, the \<open>TypeError\<close> of the template literal when it has none. When the item is
  present it is removed from the set and nothing else changes: the item, its boxes and the
  other containers stay as they were.
\<close>

theorem C9_deleteItem:
  "(\<not> (\<exists>k. x = JItem k \<and> k \<in> set (itemList (container_at s c))) \<longrightarrow>
      deleteItem s c x =
        (Inl (if renders x then InvalidArgument ''Container.deleteItem'' else TypeError), s)) \<and>
   (c < length (container_heap s) \<and> i \<in> set (itemList (container_at s c)) \<longrightarrow>
      fst (deleteItem s c (JItem i)) = Inr () \<and>
      itemList (container_at (snd (deleteItem s c (JItem i))) c) =
        removeAll i (itemList (container_at s c)) \<and>
      i \<notin> set (itemList (container_at (snd (deleteItem s c (JItem i))) c)) \<and>
      (\<forall>c'. c' \<noteq> c \<longrightarrow>
         container_at (snd (deleteItem s c (JItem i))) c' = container_at s c') \<and>
      item_heap (snd (deleteItem s c (JItem i))) = item_heap s \<and>
      box_heap (snd (deleteItem s c (JItem i))) = box_heap s)"
proof -
  have a: "\<not> (\<exists>k. x = JItem k \<and> k \<in> set (itemList (container_at s c))) \<longrightarrow>
      deleteItem s c x =
        (Inl (if renders x then InvalidArgument ''Container.deleteItem'' else TypeError), s)"
    by (cases x) (auto simp: deleteItem_def invalid_argument_def)
  have b: "c < length (container_heap s) \<and> i \<in> set (itemList (container_at s c)) \<longrightarrow>
      fst (deleteItem s c (JItem i)) = Inr () \<and>
      itemList (container_at (snd (deleteItem s c (JItem i))) c) =
        removeAll i (itemList (container_at s c)) \<and>
      i \<notin> set (itemList (container_at (snd (deleteItem s c (JItem i))) c)) \<and>
      (\<forall>c'. c' \<noteq> c \<longrightarrow>
         container_at (snd (deleteItem s c (JItem i))) c' = container_at s c') \<and>
      item_heap (snd (deleteItem s c (JItem i))) = item_heap s \<and>
      box_heap (snd (deleteItem s c (JItem i))) = box_heap s"
    by (simp add: deleteItem_def update_container_def container_at_def Set_delete_def)
  from a b show ?thesis by blast
qed

theorem C9_deleteItem_witness:
  "deleteItem example_store 0 (JItem 7) =
     (Inl (InvalidArgument ''Container.deleteItem''), example_store) \<and>
   deleteItem example_store 0 (JBox 0) =
     (Inl (InvalidArgument ''Container.deleteItem''), example_store) \<and>
   deleteItem example_store 0 (JObj [(''toString'', JStr ''x'')]) =
     (Inl TypeError, example_store) \<and>
   (0::nat) < length (container_heap example_store) \<and>
   (1::nat) \<in> set (itemList (container_at example_store 0)) \<and>
   fst (deleteItem example_store 0 (JItem 1)) = Inr () \<and>
   itemList (container_at (snd (deleteItem example_store 0 (JItem 1))) 0) = [0] \<and>
   item_heap (snd (deleteItem example_store 0 (JItem 1))) = item_heap example_store \<and>
   box_heap (snd (deleteItem example_store 0 (JItem 1))) = box_heap example_store"
proof -
  have l: "itemList (container_at example_store 0) = [0, 1]"
    by (simp add: example_store_def container_at_def)
  have c: "(0::nat) < length (container_heap example_store)"
    by (simp add: example_store_def)
  show ?thesis
    using C9_deleteItem [of "JItem 7" example_store 0 1]
          C9_deleteItem [of "JBox 0" example_store 0 1]
          C9_deleteItem [of "JObj [(''toString'', JStr ''x'')]" example_store 0 1] l c
    by simp
qed

section \<open>Container: the views over all items\<close>

lemma flat_concat: "flat vs = concat (map elements_of vs)"
  by (induction vs rule: flat.induct) (simp_all add: elements_of_def)

lemma concat_no_arrays:
  "(\<And>v. v \<in> set vs \<Longrightarrow> \<forall>xs. v \<noteq> JArr xs) \<Longrightarrow> concat (map elements_of vs) = vs"
proof (induction vs)
  case Nil
  show ?case by simp
next
  case (Cons v vs)
  then have "concat (map elements_of vs) = vs" by simp
  moreover have "\<forall>xs. v \<noteq> JArr xs" using Cons.prems by simp
  then have "elements_of v = [v]"
    by (cases v) (simp_all add: elements_of_def)
  ultimately show ?case by simp
qed

lemma map_throwing_json:
  assumes "toLowerCase f = ''json''"
  shows "map_throwing (\<lambda>el. getItemData s el (JStr f)) xs = Inr (map (Item_getDataAsJson s) xs)"
proof -
  have "isNonEmptyString (JStr f)"
    using assms by (simp add: format_name_nonempty)
  then have "\<And>el. getItemData s el (JStr f) = Inr (Item_getDataAsJson s el)"
    using assms by (simp add: getItemData_JStr isNonEmptyString_JStr)
  then show ?thesis by (rule map_throwing_total)
qed

lemma map_throwing_table:
  assumes "toLowerCase f = ''table''"
  shows "map_throwing (\<lambda>el. getItemData s el (JStr f)) xs = Inr (map (Item_getDataAsTable s) xs)"
proof -
  have "isNonEmptyString (JStr f)"
    using assms by (simp add: format_name_nonempty)
  then have "\<And>el. getItemData s el (JStr f) = Inr (Item_getDataAsTable s el)"
    using assms by (simp add: getItemData_JStr isNonEmptyString_JStr)
  then show ?thesis by (rule map_throwing_total)
qed

lemma concat_table_rows:
  "concat (map elements_of (map (Item_getDataAsTable s) xs)) =
   concat (map (\<lambda>i. map (\<lambda>b. JObj [(''collection'', JStr (collection (item_at s i))),
                                     (''item_name'', JStr (item_name (item_at s i))),
                                     (''item_id'', JNum (item_id (item_at s i))),
                                     (''box_qty'', JNum (qty (box_at s b))),
                                     (''box_description'', JStr (description (box_at s b)))])
                          (boxes (item_at s i))) xs)"
  by (induction xs)
    (simp_all add: elements_of_def Item_getDataAsTable_def Box_get_qty_def
      Box_get_description_def)

text \<open>
  C3 as stated fails for \<open>obj\<close>: the container returns its \<open>Item\<close> instances, not the
  records that each item's \<open>getItemData("obj")\<close> returns.
\<close>

theorem C3_obj_view_counterexample:
  "getContainerData example_store 0 (JStr ''obj'') = Inr (JArr [JItem 0, JItem 1]) \<and>
   concat_item_data example_store 0 (JStr ''obj'') =
     Inr (JArr [JObj [(''collection'', JStr ''A''), (''item_name'', JStr ''chair''),
                      (''item_id'', JNum 3), (''boxes'', JArr [JBox 0, JBox 1])],
                JObj [(''collection'', JStr ''B''), (''item_name'', JStr ''desk''),
                      (''item_id'', JNum 3), (''boxes'', JArr [JBox 2])]]) \<and>
   getContainerData example_store 0 (JStr ''obj'') \<noteq>
     concat_item_data example_store 0 (JStr ''obj'')"
  by code_simp

text \<open>
  C3, amended. The format is matched case-insensitively. For \<open>json\<close> and \<open>table\<close>,
  \<open>getContainerData(format)\<close> is the concatenation over the contained items, in the set's
  order, of each item's \<open>getItemData(format)\<close> result. For \<open>json\<close> that is one record per
  item, with the item's boxes as \<open>qty\<close>/\<open>description\<close> records. For \<open>table\<close> it is one flat
  sequence of rows: the rows of the first item, one per box, then the rows of the second,
  and so on, with no nesting. For \<open>obj\<close> it is the sequence of the contained \<open>Item\<close>
  instances themselves.
\<close>

theorem C3_container_views:
  "(toLowerCase f = ''obj'' \<longrightarrow>
      getContainerData s c (JStr f) = Inr (JArr (map JItem (itemList (container_at s c))))) \<and>
   (toLowerCase f = ''json'' \<longrightarrow>
      getContainerData s c (JStr f) = concat_item_data s c (JStr f) \<and>
      getContainerData s c (JStr f) =
        Inr (JArr (map (Item_getDataAsJson s) (itemList (container_at s c)))) \<and>
      getContainerData s c (JStr f) =
        Inr (JArr (map (\<lambda>i.
          JObj [(''collection'', JStr (collection (item_at s i))),
                (''item_name'', JStr (item_name (item_at s i))),
                (''item_id'', JNum (item_id (item_at s i))),
                (''boxes'', JArr (map (\<lambda>b. JObj [(''qty'', JNum (qty (box_at s b))),
                                                   (''description'', JStr (description (box_at s b)))])
                                   (boxes (item_at s i))))])
          (itemList (container_at s c))))) \<and>
   (toLowerCase f = ''table'' \<longrightarrow>
      getContainerData s c (JStr f) = concat_item_data s c (JStr f) \<and>
      getContainerData s c (JStr f) =
        Inr (JArr (flat (map (Item_getDataAsTable s) (itemList (container_at s c))))) \<and>
      getContainerData s c (JStr f) =
        Inr (JArr (concat (map (\<lambda>i.
          map (\<lambda>b. JObj [(''collection'', JStr (collection (item_at s i))),
                          (''item_name'', JStr (item_name (item_at s i))),
                          (''item_id'', JNum (item_id (item_at s i))),
                          (''box_qty'', JNum (qty (box_at s b))),
                          (''box_description'', JStr (description (box_at s b)))])
              (boxes (item_at s i)))
          (itemList (container_at s c))))))"
proof -
  let ?items = "itemList (container_at s c)"
  have ne: "toLowerCase f \<in> {''obj'', ''json'', ''table''} \<Longrightarrow> trim f \<noteq> []"
    using format_name_nonempty [of f] by (simp add: isNonEmptyString_JStr)
  have a: "toLowerCase f = ''obj'' \<longrightarrow>
      getContainerData s c (JStr f) = Inr (JArr (map JItem ?items))"
    using ne by (simp add: getContainerData_JStr Container_getDataAsObj_def)
  have fl: "concat (map elements_of (map (Item_getDataAsJson s) ?items)) =
      map (Item_getDataAsJson s) ?items"
    by (rule concat_no_arrays) (auto simp: Item_getDataAsJson_def)
  have j1: "toLowerCase f = ''json'' \<Longrightarrow>
      getContainerData s c (JStr f) = Inr (JArr (map (Item_getDataAsJson s) ?items))"
    using ne
    by (simp add: getContainerData_JStr Container_getDataAsJson_def map_throwing_json
        toLowerCase_format_names)
  have j2: "toLowerCase f = ''json'' \<Longrightarrow>
      concat_item_data s c (JStr f) = Inr (JArr (map (Item_getDataAsJson s) ?items))"
    by (simp add: concat_item_data_def map_throwing_json fl del: map_map)
  have j3: "map (Item_getDataAsJson s) ?items =
      map (\<lambda>i.
          JObj [(''collection'', JStr (collection (item_at s i))),
                (''item_name'', JStr (item_name (item_at s i))),
                (''item_id'', JNum (item_id (item_at s i))),
                (''boxes'', JArr (map (\<lambda>b. JObj [(''qty'', JNum (qty (box_at s b))),
                                                   (''description'', JStr (description (box_at s b)))])
                                   (boxes (item_at s i))))]) ?items"
    by (simp add: Item_getDataAsJson_def Box_get_qty_def Box_get_description_def)
  have t1: "toLowerCase f = ''table'' \<Longrightarrow>
      getContainerData s c (JStr f) = Inr (JArr (flat (map (Item_getDataAsTable s) ?items)))"
    using ne
    by (simp add: getContainerData_JStr Container_getDataAsTable_def map_throwing_table
        toLowerCase_format_names)
  have t2: "toLowerCase f = ''table'' \<Longrightarrow>
      concat_item_data s c (JStr f) =
        Inr (JArr (concat (map elements_of (map (Item_getDataAsTable s) ?items))))"
    by (simp add: concat_item_data_def map_throwing_table del: map_map)
  have t3: "flat (map (Item_getDataAsTable s) ?items) =
      concat (map elements_of (map (Item_getDataAsTable s) ?items))"
    by (rule flat_concat)
  have t4: "toLowerCase f = ''table'' \<Longrightarrow>
      getContainerData s c (JStr f) = concat_item_data s c (JStr f)"
    by (simp only: t1 t2 t3)
  have t5: "toLowerCase f = ''table'' \<Longrightarrow>
      getContainerData s c (JStr f) =
        Inr (JArr (concat (map (\<lambda>i.
          map (\<lambda>b. JObj [(''collection'', JStr (collection (item_at s i))),
                          (''item_name'', JStr (item_name (item_at s i))),
                          (''item_id'', JNum (item_id (item_at s i))),
                          (''box_qty'', JNum (qty (box_at s b))),
                          (''box_description'', JStr (description (box_at s b)))])
              (boxes (item_at s i)))
          ?items)))"
    by (simp only: t1 t3 concat_table_rows)
  have j4: "toLowerCase f = ''json'' \<Longrightarrow>
      getContainerData s c (JStr f) = concat_item_data s c (JStr f)"
    by (simp only: j1 j2)
  have j5: "toLowerCase f = ''json'' \<Longrightarrow>
      getContainerData s c (JStr f) =
        Inr (JArr (map (\<lambda>i.
          JObj [(''collection'', JStr (collection (item_at s i))),
                (''item_name'', JStr (item_name (item_at s i))),
                (''item_id'', JNum (item_id (item_at s i))),
                (''boxes'', JArr (map (\<lambda>b. JObj [(''qty'', JNum (qty (box_at s b))),
                                                   (''description'', JStr (description (box_at s b)))])
                                   (boxes (item_at s i))))])
          ?items))"
    by (simp only: j1 j3)
  from a j1 j4 j5 t1 t4 t5 show ?thesis by blast
qed

theorem C3_container_views_witness:
  "toLowerCase ''OBJ'' = ''obj'' \<and>
   getContainerData example_store 0 (JStr ''OBJ'') = Inr (JArr [JItem 0, JItem 1]) \<and>
   toLowerCase ''Json'' = ''json'' \<and>
   getContainerData example_store 0 (JStr ''Json'') =
     concat_item_data example_store 0 (JStr ''Json'') \<and>
   getContainerData example_store 0 (JStr ''Json'') =
     Inr (JArr
       [JObj [(''collection'', JStr ''A''), (''item_name'', JStr ''chair''),
              (''item_id'', JNum 3),
              (''boxes'', JArr [JObj [(''qty'', JNum 5), (''description'', JStr ''small'')],
                                JObj [(''qty'', JNum 10), (''description'', JStr ''large'')]])],
        JObj [(''collection'', JStr ''B''), (''item_name'', JStr ''desk''),
              (''item_id'', JNum 3),
              (''boxes'', JArr [JObj [(''qty'', JNum 1), (''description'', JStr '' wide '')]])]]) \<and>
   toLowerCase ''table'' = ''table'' \<and>
   getContainerData example_store 0 (JStr ''table'') =
     concat_item_data example_store 0 (JStr ''table'') \<and>
   getContainerData example_store 0 (JStr ''table'') =
     Inr (JArr
       [JObj [(''collection'', JStr ''A''), (''item_name'', JStr ''chair''),
              (''item_id'', JNum 3), (''box_qty'', JNum 5),
              (''box_description'', JStr ''small'')],
        JObj [(''collection'', JStr ''A''), (''item_name'', JStr ''chair''),
              (''item_id'', JNum 3), (''box_qty'', JNum 10),
              (''box_description'', JStr ''large'')],
        JObj [(''collection'', JStr ''B''), (''item_name'', JStr ''desk''),
              (''item_id'', JNum 3), (''box_qty'', JNum 1),
              (''box_description'', JStr '' wide '')]])"
proof -
  have o: "toLowerCase ''OBJ'' = ''obj''" by code_simp
  have j: "toLowerCase ''Json'' = ''json''" by code_simp
  have t: "toLowerCase ''table'' = ''table''" by code_simp
  have l: "itemList (container_at example_store 0) = [0, 1]"
    by (simp add: example_store_def container_at_def)
  have i: "item_at example_store 0 =
        \<lparr>collection = ''A'', item_name = ''chair'', item_id = 3, boxes = [0, 1]\<rparr>"
      "item_at example_store (Suc 0) =
        \<lparr>collection = ''B'', item_name = ''desk'', item_id = 3, boxes = [2]\<rparr>"
    by (simp_all add: example_store_def item_at_def)
  have b: "box_at example_store 0 = \<lparr>description = ''small'', qty = 5, parentItem = 0\<rparr>"
      "box_at example_store (Suc 0) = \<lparr>description = ''large'', qty = 10, parentItem = 0\<rparr>"
      "box_at example_store 2 = \<lparr>description = '' wide '', qty = 1, parentItem = 1\<rparr>"
    by (simp_all add: example_store_def box_at_def)
  note ob = C3_container_views [of "''OBJ''" example_store 0]
  note js = C3_container_views [of "''Json''" example_store 0]
  note tb = C3_container_views [of "''table''" example_store 0]
  have r1: "getContainerData example_store 0 (JStr ''OBJ'') = Inr (JArr [JItem 0, JItem 1])"
    using ob o l by simp
  have js': "getContainerData example_store 0 (JStr ''Json'') =
        Inr (JArr (map (\<lambda>i.
          JObj [(''collection'', JStr (collection (item_at example_store i))),
                (''item_name'', JStr (item_name (item_at example_store i))),
                (''item_id'', JNum (item_id (item_at example_store i))),
                (''boxes'', JArr (map (\<lambda>b. JObj [(''qty'', JNum (qty (box_at example_store b))),
                                                   (''description'',
                                                    JStr (description (box_at example_store b)))])
                                   (boxes (item_at example_store i))))])
          (itemList (container_at example_store 0))))"
    using js j by blast
  have tb': "getContainerData example_store 0 (JStr ''table'') =
        Inr (JArr (concat (map (\<lambda>i.
          map (\<lambda>b. JObj [(''collection'', JStr (collection (item_at example_store i))),
                          (''item_name'', JStr (item_name (item_at example_store i))),
                          (''item_id'', JNum (item_id (item_at example_store i))),
                          (''box_qty'', JNum (qty (box_at example_store b))),
                          (''box_description'', JStr (description (box_at example_store b)))])
              (boxes (item_at example_store i)))
          (itemList (container_at example_store 0)))))"
    using tb t by blast
  have r2: "getContainerData example_store 0 (JStr ''Json'') =
     concat_item_data example_store 0 (JStr ''Json'')"
    using js j by blast
  have r3: "getContainerData example_store 0 (JStr ''Json'') =
     Inr (JArr
       [JObj [(''collection'', JStr ''A''), (''item_name'', JStr ''chair''),
              (''item_id'', JNum 3),
              (''boxes'', JArr [JObj [(''qty'', JNum 5), (''description'', JStr ''small'')],
                                JObj [(''qty'', JNum 10), (''description'', JStr ''large'')]])],
        JObj [(''collection'', JStr ''B''), (''item_name'', JStr ''desk''),
              (''item_id'', JNum 3),
              (''boxes'', JArr [JObj [(''qty'', JNum 1), (''description'', JStr '' wide '')]])]])"
    by (simp add: js' l i b)
  have r4: "getContainerData example_store 0 (JStr ''table'') =
     concat_item_data example_store 0 (JStr ''table'')"
    using tb t by blast
  have r5: "getContainerData example_store 0 (JStr ''table'') =
     Inr (JArr
       [JObj [(''collection'', JStr ''A''), (''item_name'', JStr ''chair''),
              (''item_id'', JNum 3), (''box_qty'', JNum 5),
              (''box_description'', JStr ''small'')],
        JObj [(''collection'', JStr ''A''), (''item_name'', JStr ''chair''),
              (''item_id'', JNum 3), (''box_qty'', JNum 10),
              (''box_description'', JStr ''large'')],
        JObj [(''collection'', JStr ''B''), (''item_name'', JStr ''desk''),
              (''item_id'', JNum 3), (''box_qty'', JNum 1),
              (''box_description'', JStr '' wide '')]])"
    by (simp add: tb' l i b)
  from o j t r1 r2 r3 r4 r5 show ?thesis by blast
qed

section \<open>Box: validation\<close>

lemma update_box_at:
  "b < length (box_heap s) \<Longrightarrow> box_at (update_box s b f) b = f (box_at s b)"
  by (simp add: update_box_def box_at_def)

text \<open>
  C6 as stated fails: a string of one space is a non-empty string, and both the setter and
  the constructor reject it as a description.
\<close>

theorem C6_blank_description_counterexample:
  "'' '' \<noteq> [] \<and>
   Box_set_description example_store 0 (JStr '' '') =
     (Inl (InvalidArgument ''box.description''), example_store) \<and>
   Box_new example_store (JNum 5) (JStr '' '') (JItem 0) =
     (Inl (InvalidArgument ''box.description''), example_store)"
  by code_simp

text \<open>
  C6, amended. The description setter and the constructor accept exactly the strings that
  are non-empty after trimming, and store the string as given, untrimmed; every other value
  is rejected and the store is unchanged. \<open>qty\<close> is accepted exactly when it is a positive
  integer. Each of the two is validated on its own at every assignment: setting one leaves
  the other as it was, and the constructor checks \<open>qty\<close> first, then \<open>description\<close>. What a
  rejection throws is the invalid-argument error when the rejected value has a text for the
  message, and the \<open>TypeError\<close> of the template literal when it has none.
\<close>

theorem C6_box_validation:
  "(trim d \<noteq> [] \<and> b < length (box_heap s) \<longrightarrow>
      Box_set_description s b (JStr d) = (Inr (), update_box s b (\<lambda>bx. bx\<lparr>description := d\<rparr>)) \<and>
      description (box_at (snd (Box_set_description s b (JStr d))) b) = d \<and>
      qty (box_at (snd (Box_set_description s b (JStr d))) b) = qty (box_at s b)) \<and>
   (\<not> (\<exists>t. e = JStr t \<and> trim t \<noteq> []) \<longrightarrow>
      Box_set_description s b e =
        (Inl (if renders e then InvalidArgument ''box.description'' else TypeError), s)) \<and>
   (0 < (n::int) \<and> b < length (box_heap s) \<longrightarrow>
      Box_set_qty s b (JNum (of_int n)) =
        (Inr (), update_box s b (\<lambda>bx. bx\<lparr>qty := of_int n\<rparr>)) \<and>
      qty (box_at (snd (Box_set_qty s b (JNum (of_int n)))) b) = of_int n \<and>
      description (box_at (snd (Box_set_qty s b (JNum (of_int n)))) b) =
        description (box_at s b)) \<and>
   (\<not> (\<exists>m::int. 0 < m \<and> q = JNum (of_int m)) \<longrightarrow>
      Box_set_qty s b q = (Inl (if renders q then InvalidArgument ''box.qty'' else TypeError), s)) \<and>
   (0 < n \<and> trim d \<noteq> [] \<longrightarrow>
      Box_new s (JNum (of_int n)) (JStr d) (JItem i) =
        (Inr (length (box_heap s)),
         s\<lparr>box_heap := box_heap s @ [\<lparr>description = d, qty = of_int n, parentItem = i\<rparr>]\<rparr>)) \<and>
   (0 < n \<and> \<not> (\<exists>t. e = JStr t \<and> trim t \<noteq> []) \<longrightarrow>
      Box_new s (JNum (of_int n)) e (JItem i) =
        (Inl (if renders e then InvalidArgument ''box.description'' else TypeError), s)) \<and>
   (\<not> (\<exists>m::int. 0 < m \<and> q = JNum (of_int m)) \<longrightarrow>
      Box_new s q e (JItem i) =
        (Inl (if renders q then InvalidArgument ''box.qty'' else TypeError), s))"
proof -
  have pos: "0 < n \<Longrightarrow> isPositiveInt (JNum (of_int n))"
    using isPositiveInt_iff by blast
  have a: "trim d \<noteq> [] \<and> b < length (box_heap s) \<longrightarrow>
      Box_set_description s b (JStr d) = (Inr (), update_box s b (\<lambda>bx. bx\<lparr>description := d\<rparr>)) \<and>
      description (box_at (snd (Box_set_description s b (JStr d))) b) = d \<and>
      qty (box_at (snd (Box_set_description s b (JStr d))) b) = qty (box_at s b)"
    by (simp add: Box_set_description_def Box_description_setter_def isNonEmptyString_JStr
        update_box_at)
  have b: "\<not> (\<exists>t. e = JStr t \<and> trim t \<noteq> []) \<longrightarrow>
      Box_set_description s b e =
        (Inl (if renders e then InvalidArgument ''box.description'' else TypeError), s)"
    by (auto simp: Box_set_description_def Box_description_setter_def isNonEmptyString_iff
        invalid_argument_def)
  have c: "0 < n \<and> b < length (box_heap s) \<longrightarrow>
      Box_set_qty s b (JNum (of_int n)) =
        (Inr (), update_box s b (\<lambda>bx. bx\<lparr>qty := of_int n\<rparr>)) \<and>
      qty (box_at (snd (Box_set_qty s b (JNum (of_int n)))) b) = of_int n \<and>
      description (box_at (snd (Box_set_qty s b (JNum (of_int n)))) b) =
        description (box_at s b)"
    using pos by (simp add: Box_set_qty_def Box_qty_setter_def update_box_at)
  have d: "\<not> (\<exists>m::int. 0 < m \<and> q = JNum (of_int m)) \<longrightarrow>
      Box_set_qty s b q = (Inl (if renders q then InvalidArgument ''box.qty'' else TypeError), s)"
    by (auto simp: Box_set_qty_def Box_qty_setter_def isPositiveInt_iff invalid_argument_def)
  have e: "0 < n \<and> trim d \<noteq> [] \<longrightarrow>
      Box_new s (JNum (of_int n)) (JStr d) (JItem i) =
        (Inr (length (box_heap s)),
         s\<lparr>box_heap := box_heap s @ [\<lparr>description = d, qty = of_int n, parentItem = i\<rparr>]\<rparr>)"
    using pos
    by (simp add: Box_new_def Box_qty_setter_def Box_description_setter_def
        Box_setParentItem_def isNonEmptyString_JStr)
  have f: "0 < n \<and> \<not> (\<exists>t. e = JStr t \<and> trim t \<noteq> []) \<longrightarrow>
      Box_new s (JNum (of_int n)) e (JItem i) =
        (Inl (if renders e then InvalidArgument ''box.description'' else TypeError), s)"
    using pos
    by (auto simp: Box_new_def Box_qty_setter_def Box_description_setter_def
        isNonEmptyString_iff invalid_argument_def)
  have g: "\<not> (\<exists>m::int. 0 < m \<and> q = JNum (of_int m)) \<longrightarrow>
      Box_new s q e (JItem i) =
        (Inl (if renders q then InvalidArgument ''box.qty'' else TypeError), s)"
    by (auto simp: Box_new_def Box_qty_setter_def isPositiveInt_iff invalid_argument_def)
  from a b c d e f g show ?thesis by blast
qed

theorem C6_box_validation_witness:
  "trim '' wide  load '' \<noteq> [] \<and> (2::nat) < length (box_heap example_store) \<and>
   description (box_at (snd (Box_set_description example_store 2 (JStr '' wide  load ''))) 2) =
     '' wide  load '' \<and>
   qty (box_at (snd (Box_set_description example_store 2 (JStr '' wide  load ''))) 2) = 1 \<and>
   Box_set_description example_store 2 (JStr []) =
     (Inl (InvalidArgument ''box.description''), example_store) \<and>
   (0::int) < 7 \<and>
   qty (box_at (snd (Box_set_qty example_store 2 (JNum 7))) 2) = 7 \<and>
   description (box_at (snd (Box_set_qty example_store 2 (JNum 7))) 2) = '' wide '' \<and>
   Box_set_qty example_store 2 (JStr ''7'') = (Inl (InvalidArgument ''box.qty''), example_store) \<and>
   fst (Box_new example_store (JNum 7) (JStr '' wide  load '') (JItem 0)) = Inr 3 \<and>
   Box_new example_store (JNum 7) (JStr []) (JItem 0) =
     (Inl (InvalidArgument ''box.description''), example_store) \<and>
   Box_new example_store (JStr ''7'') (JStr []) (JItem 0) =
     (Inl (InvalidArgument ''box.qty''), example_store) \<and>
   Box_set_description example_store 2 (JObj [(''toString'', JNum 1)]) =
     (Inl TypeError, example_store) \<and>
   Box_set_qty example_store 2 (JObj [(''toString'', JNum 1)]) =
     (Inl TypeError, example_store)"
proof -
  have t: "trim '' wide  load '' \<noteq> []" by code_simp
  have l: "(2::nat) < length (box_heap example_store)"
    by (simp add: example_store_def)
  have q: "qty (box_at example_store 2) = 1" "description (box_at example_store 2) = '' wide ''"
    by (simp_all add: example_store_def box_at_def)
  have len: "length (box_heap example_store) = 3"
    by (simp add: example_store_def)
  show ?thesis
    using t l q len
      C6_box_validation [of "'' wide  load ''" 2 example_store "JStr []" 7 "JStr ''7''" 0]
      C6_box_validation [of "'' wide  load ''" 2 example_store "JObj [(''toString'', JNum 1)]" 7
        "JObj [(''toString'', JNum 1)]" 0]
    by (simp add: trim_def update_box_at)
qed

section \<open>addBoxes, one descriptor after the other\<close>

lemma addBoxes_forEach_ok_step:
  assumes "box_descriptor_ok el"
  shows "addBoxes_forEach s i (el # els) =
    addBoxes_forEach
      (update_item (s\<lparr>box_heap := box_heap s @ [descriptor_box i el]\<rparr>) i
         (\<lambda>it. it\<lparr>boxes := Set_add (length (box_heap s)) (boxes it)\<rparr>)) i els"
  using assms
  by (auto simp: box_descriptor_ok_def descriptor_box_def descriptor_part_def Box_new_def
      Box_qty_setter_def Box_description_setter_def Box_setParentItem_def split: sum.splits)

lemma addBoxes_forEach_bad_step:
  assumes "\<not> box_descriptor_ok el"
  shows "\<exists>err. addBoxes_forEach s i (el # els) = (Inl err, s)"
  using assms
  by (auto simp: box_descriptor_ok_def Box_new_def
      Box_qty_setter_def Box_description_setter_def Box_setParentItem_def split: sum.splits)

lemma with_boxes_Nil: "i < length (item_heap s) \<Longrightarrow> with_boxes s i [] = s"
  by (simp add: with_boxes_def item_at_def)

lemma with_boxes_heaps:
  "box_heap (with_boxes s i els) = box_heap s @ map (descriptor_box i) els"
  "container_heap (with_boxes s i els) = container_heap s"
  "length (item_heap (with_boxes s i els)) = length (item_heap s)"
  by (simp_all add: with_boxes_def)

lemma with_boxes_item_at:
  "j < length (item_heap s) \<Longrightarrow>
   item_at (with_boxes s i els) j =
     (if j = i then (item_at s i)\<lparr>boxes := boxes (item_at s i) @
                 [length (box_heap s) ..< length (box_heap s) + length els]\<rparr>
      else item_at s j)"
  by (simp add: with_boxes_def item_at_def)

lemma with_boxes_one:
  assumes "i < length (item_heap s)"
    and "\<forall>b \<in> set (boxes (item_at s i)). b < length (box_heap s)"
  shows "update_item (s\<lparr>box_heap := box_heap s @ [descriptor_box i el]\<rparr>) i
           (\<lambda>it. it\<lparr>boxes := Set_add (length (box_heap s)) (boxes it)\<rparr>) =
         with_boxes s i [el]"
proof -
  have "length (box_heap s) \<notin> set (boxes (item_at s i))"
    using assms(2) by auto
  then show ?thesis
    by (simp add: update_item_def with_boxes_def item_at_def Set_add_def)
qed

lemma with_boxes_Cons:
  assumes "i < length (item_heap s)"
  shows "with_boxes (with_boxes s i [el]) i els = with_boxes s i (el # els)"
  using assms
  by (simp add: with_boxes_def item_at_def upt_conv_Cons del: upt_Suc)

lemma addBoxes_forEach_ok_prefix:
  assumes "i < length (item_heap s)"
    and "\<forall>b \<in> set (boxes (item_at s i)). b < length (box_heap s)"
    and "list_all box_descriptor_ok vs"
  shows "addBoxes_forEach s i (vs @ rest) = addBoxes_forEach (with_boxes s i vs) i rest"
  using assms
proof (induction vs arbitrary: s)
  case Nil
  then show ?case by (simp add: with_boxes_Nil)
next
  case (Cons el vs)
  let ?s1 = "with_boxes s i [el]"
  have ok: "box_descriptor_ok el" and oks: "list_all box_descriptor_ok vs"
    using Cons.prems(3) by simp_all
  have step: "addBoxes_forEach s i ((el # vs) @ rest) = addBoxes_forEach ?s1 i (vs @ rest)"
    using addBoxes_forEach_ok_step [OF ok, of s i "vs @ rest"]
      with_boxes_one [OF Cons.prems(1,2), of el]
    by simp
  have len: "i < length (item_heap ?s1)"
    using Cons.prems(1) by (simp add: with_boxes_heaps)
  have bound: "\<forall>b \<in> set (boxes (item_at ?s1 i)). b < length (box_heap ?s1)"
    using Cons.prems(1,2) by (auto simp: with_boxes_item_at with_boxes_heaps)
  have "addBoxes_forEach ?s1 i (vs @ rest) = addBoxes_forEach (with_boxes ?s1 i vs) i rest"
    using Cons.IH [OF len bound oks] .
  then show ?case
    using step by (simp add: with_boxes_Cons [OF Cons.prems(1)])
qed

lemma addBoxes_forEach_result:
  assumes "i < length (item_heap s)"
    and "\<forall>b \<in> set (boxes (item_at s i)). b < length (box_heap s)"
  shows "snd (addBoxes_forEach s i els) = with_boxes s i (takeWhile box_descriptor_ok els)"
    and "(fst (addBoxes_forEach s i els) = Inr ()) = list_all box_descriptor_ok els"
proof -
  let ?vs = "takeWhile box_descriptor_ok els" and ?rest = "dropWhile box_descriptor_ok els"
  have oks: "list_all box_descriptor_ok ?vs"
    by (simp add: list_all_iff) (meson set_takeWhileD)
  have eq: "addBoxes_forEach s i els = addBoxes_forEach (with_boxes s i ?vs) i ?rest"
    using addBoxes_forEach_ok_prefix [OF assms oks, of ?rest] by simp
  show "snd (addBoxes_forEach s i els) = with_boxes s i ?vs"
  proof (cases ?rest)
    case Nil
    show ?thesis by (simp only: eq Nil addBoxes_forEach.simps snd_conv)
  next
    case (Cons bad rest')
    then have "\<not> box_descriptor_ok bad"
      by (metis hd_dropWhile list.sel(1) list.distinct(1))
    from addBoxes_forEach_bad_step [OF this] Cons eq show ?thesis
      by (metis snd_conv)
  qed
  show "(fst (addBoxes_forEach s i els) = Inr ()) = list_all box_descriptor_ok els"
  proof (cases ?rest)
    case Nil
    then have "list_all box_descriptor_ok els"
      by (simp add: list_all_iff dropWhile_eq_Nil_conv)
    moreover have "fst (addBoxes_forEach s i els) = Inr ()"
      by (simp only: eq Nil addBoxes_forEach.simps fst_conv)
    ultimately show ?thesis by simp
  next
    case (Cons bad rest')
    then have bad: "\<not> box_descriptor_ok bad"
      by (metis hd_dropWhile list.sel(1) list.distinct(1))
    have "bad \<in> set els"
      by (metis Cons list.set_intros(1) set_dropWhileD)
    with bad have "\<not> list_all box_descriptor_ok els"
      by (auto simp: list_all_iff)
    moreover from addBoxes_forEach_bad_step [OF bad] Cons eq
    have "fst (addBoxes_forEach s i els) \<noteq> Inr ()"
      by (metis fst_conv sum.distinct(1))
    ultimately show ?thesis by simp
  qed
qed

section \<open>The shape of the store is kept\<close>

lemma wf_store_update_container [simp]:
  "wf_store (update_container s c f) = wf_store s"
  by (simp add: wf_store_def item_ok_def update_container_def item_at_def box_at_def)

lemma wf_store_same_boxes:
  assumes "wf_store s"
    and "length (item_heap s') = length (item_heap s)"
    and "\<And>i. i < length (item_heap s) \<Longrightarrow> boxes (item_at s' i) = boxes (item_at s i)"
    and "length (box_heap s) \<le> length (box_heap s')"
    and "\<And>b. b < length (box_heap s) \<Longrightarrow> parentItem (box_at s' b) = parentItem (box_at s b)"
  shows "wf_store s'"
  unfolding wf_store_def item_ok_def
proof (intro allI impI)
  fix i assume i: "i < length (item_heap s')"
  then have i': "i < length (item_heap s)" using assms(2) by simp
  then have old: "boxes (item_at s i) \<noteq> []" "distinct (boxes (item_at s i))"
    "\<forall>b \<in> set (boxes (item_at s i)). b < length (box_heap s) \<and> parentItem (box_at s b) = i"
    using assms(1) by (auto simp: wf_store_def item_ok_def)
  show "boxes (item_at s' i) \<noteq> [] \<and> distinct (boxes (item_at s' i)) \<and>
     (\<forall>b \<in> set (boxes (item_at s' i)). b < length (box_heap s') \<and> parentItem (box_at s' b) = i)"
    using old assms(3) [OF i'] assms(4) assms(5) by auto
qed

lemma with_boxes_item_ok:
  assumes "item_ok s j" and "j < length (item_heap s)"
  shows "item_ok (with_boxes s i els) j"
proof (cases "j = i")
  case False
  then show ?thesis
    using assms
    by (auto simp: item_ok_def with_boxes_item_at with_boxes_heaps box_at_def nth_append)
next
  case True
  let ?n = "length (box_heap s)"
  have old: "distinct (boxes (item_at s i))"
    "\<forall>b \<in> set (boxes (item_at s i)). b < ?n \<and> parentItem (box_at s b) = i"
    using assms(1) True by (auto simp: item_ok_def)
  have bs: "boxes (item_at (with_boxes s i els) i) =
      boxes (item_at s i) @ [?n ..< ?n + length els]"
    using assms(2) True by (simp add: with_boxes_item_at)
  have d: "distinct (boxes (item_at s i) @ [?n ..< ?n + length els])"
    using old by auto
  have p: "parentItem (box_at (with_boxes s i els) b) = i"
    if "b \<in> set (boxes (item_at s i) @ [?n ..< ?n + length els])" for b
  proof (cases "b < ?n")
    case True
    then have "b \<in> set (boxes (item_at s i))" using that by auto
    then show ?thesis
      using old(2) \<open>b < ?n\<close> by (simp add: box_at_def with_boxes_heaps nth_append)
  next
    case False
    then have "b - ?n < length els" using that old(2) by auto
    then show ?thesis
      using False by (simp add: box_at_def with_boxes_heaps nth_append descriptor_box_def)
  qed
  have l: "b < length (box_heap (with_boxes s i els))"
    if "b \<in> set (boxes (item_at s i) @ [?n ..< ?n + length els])" for b
    using that old(2) by (auto simp: with_boxes_heaps)
  show ?thesis
    unfolding item_ok_def True bs using d p l by blast
qed

lemma with_boxes_wf:
  assumes "wf_store s" and "i < length (item_heap s)"
  shows "wf_store (with_boxes s i els)"
  unfolding wf_store_def
proof (intro allI impI)
  fix j assume "j < length (item_heap (with_boxes s i els))"
  then have j: "j < length (item_heap s)" by (simp add: with_boxes_heaps)
  then have "boxes (item_at s j) \<noteq> []" and "item_ok s j"
    using assms(1) by (auto simp: wf_store_def)
  then show "boxes (item_at (with_boxes s i els) j) \<noteq> [] \<and> item_ok (with_boxes s i els) j"
    using j by (auto simp: with_boxes_item_ok with_boxes_item_at)
qed

lemma addBoxes_wf:
  assumes "wf_store s" and "i < length (item_heap s)"
  shows "wf_store (snd (addBoxes s i es))"
proof -
  have "\<forall>b \<in> set (boxes (item_at s i)). b < length (box_heap s)"
    using assms by (auto simp: wf_store_def item_ok_def)
  then show ?thesis
    using assms by (simp add: addBoxes_def addBoxes_forEach_result with_boxes_wf)
qed

lemma Item_new_Inl: "Item_new s c n k bs = (Inl err, s') \<Longrightarrow> s' = s"
  by (auto simp: Item_new_def Let_def split: sum.splits prod.splits)

lemma Item_new_Inr:
  assumes "Item_new s c n k bs = (Inr i, s')"
  shows "i = length (item_heap s)"
    and "bs \<noteq> []"
    and "list_all box_descriptor_ok bs"
    and "isNonEmptyString c" and "isNonEmptyString n" and "isPositiveInt k"
    and "s' = with_boxes
           (s\<lparr>item_heap := item_heap s @
                [\<lparr>collection = trim (str_val c), item_name = trim (str_val n),
                  item_id = num_val k, boxes = []\<rparr>]\<rparr>) i bs"
proof -
  let ?s1 = "s\<lparr>item_heap := item_heap s @
                [\<lparr>collection = trim (str_val c), item_name = trim (str_val n),
                  item_id = num_val k, boxes = []\<rparr>]\<rparr>"
  let ?i = "length (item_heap s)"
  show c: "isNonEmptyString c" and n: "isNonEmptyString n" and k: "isPositiveInt k"
    using assms
    by (auto simp: Item_new_def Item_collection_setter_def Item_item_name_setter_def
        Item_item_id_setter_def split: if_splits)
  have run: "Item_new s c n k bs =
      (case addBoxes ?s1 ?i bs of (Inl err, s2) \<Rightarrow> (Inl err, s) | (Inr u, s2) \<Rightarrow> (Inr ?i, s2))"
    using c n k
    by (simp add: Item_new_def Item_collection_setter_def Item_item_name_setter_def
        Item_item_id_setter_def Let_def)
  with assms have ok: "fst (addBoxes ?s1 ?i bs) = Inr ()" and s': "s' = snd (addBoxes ?s1 ?i bs)"
    and i: "i = ?i"
    by (auto split: prod.splits sum.splits)
  show "i = length (item_heap s)" by (rule i)
  show ne: "bs \<noteq> []"
    using ok by (auto simp: addBoxes_def)
  have len: "?i < length (item_heap ?s1)" by simp
  have bound: "\<forall>b \<in> set (boxes (item_at ?s1 ?i)). b < length (box_heap ?s1)"
    by (simp add: item_at_def)
  show all: "list_all box_descriptor_ok bs"
    using ok ne addBoxes_forEach_result(2) [OF len bound, of bs] by (simp add: addBoxes_def)
  then have tw: "takeWhile box_descriptor_ok bs = bs"
    by (simp add: list_all_iff)
  have "snd (addBoxes ?s1 ?i bs) = with_boxes ?s1 ?i (takeWhile box_descriptor_ok bs)"
    using ne addBoxes_forEach_result(1) [OF len bound, of bs] by (simp add: addBoxes_def)
  then show "s' = with_boxes ?s1 i bs"
    unfolding tw s' i .
qed

lemma Item_new_wf:
  assumes "wf_store s"
  shows "wf_store (snd (Item_new s c n k bs))"
proof (cases "Item_new s c n k bs")
  case (Pair r s')
  show ?thesis
  proof (cases r)
    case (Inl err)
    then show ?thesis using Pair assms Item_new_Inl by fastforce
  next
    case (Inr i)
    let ?s1 = "s\<lparr>item_heap := item_heap s @
                [\<lparr>collection = trim (str_val c), item_name = trim (str_val n),
                  item_id = num_val k, boxes = []\<rparr>]\<rparr>"
    from Pair Inr have new: "Item_new s c n k bs = (Inr i, s')" by simp
    note facts = Item_new_Inr [OF new]
    have s': "s' = with_boxes ?s1 i bs" by (rule facts(7))
    have i: "i = length (item_heap s)" by (rule facts(1))
    have "wf_store s'"
      unfolding wf_store_def
    proof (intro allI impI)
      fix j assume "j < length (item_heap s')"
      then have j: "j < length (item_heap ?s1)" by (simp add: s' with_boxes_heaps)
      show "boxes (item_at s' j) \<noteq> [] \<and> item_ok s' j"
      proof (cases "j = i")
        case True
        have a: "item_ok ?s1 i"
          by (simp add: item_ok_def item_at_def i)
        have b: "i < length (item_heap ?s1)"
          by (simp add: i)
        have "item_ok s' i"
          using with_boxes_item_ok [OF a b, of i bs] by (simp add: s')
        moreover have "boxes (item_at s' i) \<noteq> []"
          using facts(2) by (simp add: s' with_boxes_item_at i)
        ultimately show ?thesis using True by simp
      next
        case False
        then have js: "j < length (item_heap s)" using j i by simp
        then have old: "boxes (item_at s j) \<noteq> []" "item_ok s j"
          using assms by (auto simp: wf_store_def)
        have same: "item_at ?s1 j = item_at s j"
          using js by (simp add: item_at_def nth_append)
        then have a: "item_ok ?s1 j"
          using old(2) by (simp add: item_ok_def box_at_def)
        have "item_ok s' j"
          using with_boxes_item_ok [OF a j, of i bs] by (simp add: s')
        moreover have "boxes (item_at s' j) \<noteq> []"
          using False j old(1) same by (simp add: s' with_boxes_item_at)
        ultimately show ?thesis by simp
      qed
    qed
    then show ?thesis using Pair by simp
  qed
qed

lemma removeBox_wf:
  assumes "wf_store s"
  shows "wf_store (snd (removeBox s i e))"
proof (cases "fst (removeBox s i e) = Inr () \<and> i < length (item_heap s)")
  case False
  then have "item_heap (snd (removeBox s i e)) = item_heap s \<and>
             box_heap (snd (removeBox s i e)) = box_heap s"
    by (auto simp: removeBox_def update_item_def list_update_beyond)
  then show ?thesis
    using assms by (simp add: wf_store_def item_ok_def item_at_def box_at_def)
next
  case True
  let ?B = "boxes (item_at s i)" and ?b = "ref_of e"
  from True have mem: "?b \<in> set ?B" and two: "2 \<le> length ?B" and i: "i < length (item_heap s)"
    and s': "snd (removeBox s i e) = update_item s i (\<lambda>it. it\<lparr>boxes := Set_delete ?b (boxes it)\<rparr>)"
    by (auto simp: removeBox_def split: if_splits)
  from assms i have ok: "distinct ?B"
    "\<forall>b \<in> set ?B. b < length (box_heap s) \<and> parentItem (box_at s b) = i"
    by (auto simp: wf_store_def item_ok_def)
  have "length (removeAll ?b ?B) = length ?B - 1"
    using ok(1) mem by (simp add: distinct_remove1_removeAll [symmetric] length_remove1)
  with two have ne: "removeAll ?b ?B \<noteq> []" by auto
  show ?thesis
    unfolding s' wf_store_def
  proof (intro allI impI)
    fix j assume "j < length (item_heap (update_item s i (\<lambda>it. it\<lparr>boxes := Set_delete ?b (boxes it)\<rparr>)))"
    then have j: "j < length (item_heap s)" by (simp add: update_item_def)
    then have old: "boxes (item_at s j) \<noteq> []" "item_ok s j"
      using assms by (auto simp: wf_store_def)
    show "boxes (item_at (update_item s i (\<lambda>it. it\<lparr>boxes := Set_delete ?b (boxes it)\<rparr>)) j) \<noteq> [] \<and>
          item_ok (update_item s i (\<lambda>it. it\<lparr>boxes := Set_delete ?b (boxes it)\<rparr>)) j"
    proof (cases "j = i")
      case True
      then show ?thesis
        using i ne ok
        by (auto simp: update_item_def item_at_def item_ok_def box_at_def Set_delete_def
            distinct_removeAll)
    next
      case False
      then show ?thesis
        using j old
        by (auto simp: update_item_def item_at_def item_ok_def box_at_def)
    qed
  qed
qed

lemma addItems_forEach_wf:
  "wf_store s \<Longrightarrow> wf_store (snd (addItems_forEach s c es))"
proof (induction es arbitrary: s)
  case Nil
  then show ?case by simp
next
  case (Cons e es)
  show ?case
  proof (cases "instanceof_Item e")
    case True
    then show ?thesis
      using Cons.IH [of "update_container s c (\<lambda>co. co\<lparr>itemList := Set_add (ref_of e) (itemList co)\<rparr>)"]
        Cons.prems
      by simp
  next
    case False
    show ?thesis
    proof (cases "\<exists>co nm k bx. js_get e ''collection'' = Inr co \<and> js_get e ''item_name'' = Inr nm \<and>
        js_get e ''item_id'' = Inr k \<and> js_get e ''boxes'' = Inr bx")
      case no: False
      then have "snd (addItems_forEach s c (e # es)) = s"
        using False by (auto split: sum.splits)
      then show ?thesis using Cons.prems by simp
    next
      case True
      then obtain co nm k bx where g: "js_get e ''collection'' = Inr co"
        "js_get e ''item_name'' = Inr nm" "js_get e ''item_id'' = Inr k"
        "js_get e ''boxes'' = Inr bx"
        by blast
      obtain r s' where new: "Item_new s co nm k [bx] = (r, s')"
        by (cases "Item_new s co nm k [bx]")
      have wf': "wf_store s'"
        using Item_new_wf [OF Cons.prems, of co nm k "[bx]"] new by simp
      show ?thesis
      proof (cases r)
        case (Inl err)
        then show ?thesis
          using False g new wf' by simp
      next
        case (Inr item)
        then show ?thesis
          using False g new
            Cons.IH [of "update_container s' c (\<lambda>co. co\<lparr>itemList := Set_add item (itemList co)\<rparr>)"]
            wf'
          by simp
      qed
    qed
  qed
qed

lemma Container_new_wf:
  assumes "wf_store s"
  shows "wf_store (snd (Container_new s es))"
proof -
  let ?s1 = "s\<lparr>container_heap := container_heap s @ [\<lparr>itemList = []\<rparr>]\<rparr>"
  have "wf_store ?s1"
    using assms by (simp add: wf_store_def item_ok_def item_at_def box_at_def)
  then have "wf_store (snd (addItems_forEach ?s1 (length (container_heap s)) es))"
    by (rule addItems_forEach_wf)
  then show ?thesis
    using assms
    by (auto simp: Container_new_def addItems_def Let_def split: prod.splits sum.splits)
qed

lemma Box_new_wf:
  assumes "wf_store s"
  shows "wf_store (snd (Box_new s q d p))"
proof (rule wf_store_same_boxes [OF assms])
  show "length (item_heap (snd (Box_new s q d p))) = length (item_heap s)"
    by (simp add: Box_new_def split: sum.splits)
  show "length (box_heap s) \<le> length (box_heap (snd (Box_new s q d p)))"
    by (simp add: Box_new_def split: sum.splits)
  show "boxes (item_at (snd (Box_new s q d p)) i) = boxes (item_at s i)" for i
    by (simp add: Box_new_def item_at_def split: sum.splits)
  show "parentItem (box_at (snd (Box_new s q d p)) b) = parentItem (box_at s b)"
    if "b < length (box_heap s)" for b
    using that by (simp add: Box_new_def box_at_def nth_append split: sum.splits)
qed

lemma update_box_wf:
  assumes "wf_store s" and "\<And>bx. parentItem (f bx) = parentItem bx"
  shows "wf_store (update_box s b f)"
proof (rule wf_store_same_boxes [OF assms(1)])
  show "length (item_heap (update_box s b f)) = length (item_heap s)"
    by (simp add: update_box_def)
  show "length (box_heap s) \<le> length (box_heap (update_box s b f))"
    by (simp add: update_box_def)
  show "boxes (item_at (update_box s b f) i) = boxes (item_at s i)" for i
    by (simp add: update_box_def item_at_def)
  show "parentItem (box_at (update_box s b f) b') = parentItem (box_at s b')"
    if "b' < length (box_heap s)" for b'
    using that assms(2) by (cases "b' = b") (simp_all add: update_box_def box_at_def)
qed

lemma update_item_wf:
  assumes "wf_store s" and "\<And>it. boxes (f it) = boxes it"
  shows "wf_store (update_item s i f)"
proof (rule wf_store_same_boxes [OF assms(1)])
  show "length (item_heap (update_item s i f)) = length (item_heap s)"
    by (simp add: update_item_def)
  show "length (box_heap s) \<le> length (box_heap (update_item s i f))"
    by (simp add: update_item_def)
  show "boxes (item_at (update_item s i f) j) = boxes (item_at s j)"
    if "j < length (item_heap s)" for j
    using that assms(2) by (cases "j = i") (simp_all add: update_item_def item_at_def)
  show "parentItem (box_at (update_item s i f) b) = parentItem (box_at s b)" for b
    by (simp add: update_item_def box_at_def)
qed

lemma perform_wf:
  assumes "wf_store s" and "val_ok s (receiver k)"
  shows "wf_store (perform s k)"
proof (cases k)
  case (NewItem c n i bs)
  then show ?thesis using assms Item_new_wf by simp
next
  case (NewBox q d p)
  then show ?thesis using assms Box_new_wf by simp
next
  case (NewContainer es)
  then show ?thesis using assms Container_new_wf by simp
next
  case (CallAddItems c es)
  then show ?thesis using assms addItems_forEach_wf by (simp add: addItems_def)
next
  case (CallDeleteItem c e)
  then show ?thesis using assms by (simp add: deleteItem_def)
next
  case (SetCollection i e)
  then show ?thesis
    using assms by (simp add: Item_set_collection_def update_item_wf split: sum.splits)
next
  case (SetItemName i e)
  then show ?thesis
    using assms by (simp add: Item_set_item_name_def update_item_wf split: sum.splits)
next
  case (SetItemId i e)
  then show ?thesis
    using assms by (simp add: Item_set_item_id_def update_item_wf split: sum.splits)
next
  case (CallAddBoxes i es)
  then show ?thesis using assms addBoxes_wf by simp
next
  case (CallRemoveBox i e)
  then show ?thesis using assms removeBox_wf by simp
next
  case (SetQty b e)
  then show ?thesis
    using assms by (simp add: Box_set_qty_def update_box_wf split: sum.splits)
next
  case (SetDescription b e)
  then show ?thesis
    using assms by (simp add: Box_set_description_def update_box_wf split: sum.splits)
next
  case (CallBoxRemove b)
  then show ?thesis using assms removeBox_wf by (simp add: Box_remove_def)
qed

lemma exec_wf: "wf_store s \<Longrightarrow> wf_store (exec s k)"
  by (simp add: exec_def perform_wf)

lemma foldl_exec_wf: "wf_store s \<Longrightarrow> wf_store (foldl exec s ks)"
  by (induction ks arbitrary: s) (simp_all add: exec_wf)

lemma run_wf: "wf_store (run ks)"
  unfolding run_def by (rule foldl_exec_wf) (simp add: wf_store_def empty_store_def)

section \<open>Items and their boxes\<close>

text \<open>
  C1. In every store that a sequence of calls can produce (the constructors of \<open>Item\<close>,
  \<open>Box\<close> and \<open>Container\<close>, \<open>addItems\<close> with items or raw descriptors, \<open>deleteItem\<close>,
  \<open>addBoxes\<close>, \<open>removeBox\<close>, \<open>Box.remove\<close> and the setters, each returning or throwing),
  every item has at least one box.
\<close>

theorem C1_item_keeps_a_box:
  assumes "i < length (item_heap (run ks))"
  shows "1 \<le> length (boxes (item_at (run ks) i))"
proof -
  have "boxes (item_at (run ks) i) \<noteq> []"
    using run_wf [of ks] assms by (simp add: wf_store_def)
  then show ?thesis
    by (cases "boxes (item_at (run ks) i)") simp_all
qed

theorem C1_item_keeps_a_box_witness:
  "(0::nat) < length (item_heap (run example_removals)) \<and>
   (1::nat) < length (item_heap (run example_removals)) \<and>
   boxes (item_at (run example_removals) 0) = [1] \<and>
   boxes (item_at (run example_removals) 1) = [2] \<and>
   1 \<le> length (boxes (item_at (run example_removals) 0)) \<and>
   1 \<le> length (boxes (item_at (run example_removals) 1))"
proof -
  have l: "length (item_heap (run example_removals)) = 2" by code_simp
  have b0: "boxes (item_at (run example_removals) 0) = [1]" by code_simp
  have b1: "boxes (item_at (run example_removals) 1) = [2]" by code_simp
  have h0: "0 < length (item_heap (run example_removals))" using l by simp
  have h1: "1 < length (item_heap (run example_removals))" using l by simp
  show ?thesis
    using h0 h1 b0 b1 C1_item_keeps_a_box [OF h0] C1_item_keeps_a_box [OF h1] by simp
qed

text \<open>
  C2. For a box \<open>b\<close> in the set of item \<open>i\<close>, \<open>removeBox(b)\<close> throws the
  must-have-one-box error exactly when the set has size 1, and then the store is unchanged,
  so the box is still present. Otherwise the set has at least two boxes, the call returns,
  exactly \<open>b\<close> leaves the set and nothing else changes. \<open>b.remove()\<close> is the same call.
\<close>

theorem C2_removeBox:
  assumes "s = run ks" and "i < length (item_heap s)" and "b \<in> set (boxes (item_at s i))"
  shows "(fst (removeBox s i (JBox b)) = Inl MustHaveOneBox \<longleftrightarrow>
            length (boxes (item_at s i)) = 1) \<and>
         (length (boxes (item_at s i)) = 1 \<longrightarrow>
            removeBox s i (JBox b) = (Inl MustHaveOneBox, s)) \<and>
         (length (boxes (item_at s i)) \<noteq> 1 \<longrightarrow>
            2 \<le> length (boxes (item_at s i)) \<and>
            fst (removeBox s i (JBox b)) = Inr () \<and>
            boxes (item_at (snd (removeBox s i (JBox b))) i) =
              removeAll b (boxes (item_at s i)) \<and>
            set (boxes (item_at (snd (removeBox s i (JBox b))) i)) =
              set (boxes (item_at s i)) - {b} \<and>
            length (boxes (item_at (snd (removeBox s i (JBox b))) i)) =
              length (boxes (item_at s i)) - 1 \<and>
            (\<forall>j. j \<noteq> i \<longrightarrow> item_at (snd (removeBox s i (JBox b))) j = item_at s j) \<and>
            box_heap (snd (removeBox s i (JBox b))) = box_heap s \<and>
            container_heap (snd (removeBox s i (JBox b))) = container_heap s) \<and>
         Box_remove s b = removeBox s i (JBox b)"
proof -
  let ?B = "boxes (item_at s i)"
  have wf: "wf_store s" using assms(1) run_wf by simp
  then have ok: "?B \<noteq> []" "distinct ?B" "parentItem (box_at s b) = i"
    using assms(2,3) by (auto simp: wf_store_def item_ok_def)
  have len: "1 \<le> length ?B"
    using ok(1) by (cases ?B) simp_all
  have a: "fst (removeBox s i (JBox b)) = Inl MustHaveOneBox \<longleftrightarrow> length ?B = 1"
    using assms(3) len by (auto simp: removeBox_def)
  have b: "length ?B = 1 \<longrightarrow> removeBox s i (JBox b) = (Inl MustHaveOneBox, s)"
    using assms(3) by (simp add: removeBox_def)
  have rm: "length (removeAll b ?B) = length ?B - 1"
    using ok(2) assms(3) by (simp add: distinct_remove1_removeAll [symmetric] length_remove1)
  have c: "length ?B \<noteq> 1 \<longrightarrow>
            2 \<le> length ?B \<and>
            fst (removeBox s i (JBox b)) = Inr () \<and>
            boxes (item_at (snd (removeBox s i (JBox b))) i) = removeAll b ?B \<and>
            set (boxes (item_at (snd (removeBox s i (JBox b))) i)) = set ?B - {b} \<and>
            length (boxes (item_at (snd (removeBox s i (JBox b))) i)) = length ?B - 1 \<and>
            (\<forall>j. j \<noteq> i \<longrightarrow> item_at (snd (removeBox s i (JBox b))) j = item_at s j) \<and>
            box_heap (snd (removeBox s i (JBox b))) = box_heap s \<and>
            container_heap (snd (removeBox s i (JBox b))) = container_heap s"
    using assms(2,3) len rm
    by (auto simp: removeBox_def update_item_def item_at_def Set_delete_def)
  have d: "Box_remove s b = removeBox s i (JBox b)"
    using ok(3) by (simp add: Box_remove_def)
  from a b c d show ?thesis by blast
qed

theorem C2_removeBox_witness:
  "example_store = run example_calls \<and>
   (1::nat) < length (item_heap example_store) \<and>
   (2::nat) \<in> set (boxes (item_at example_store 1)) \<and>
   length (boxes (item_at example_store 1)) = 1 \<and>
   removeBox example_store 1 (JBox 2) = (Inl MustHaveOneBox, example_store) \<and>
   Box_remove example_store 2 = (Inl MustHaveOneBox, example_store) \<and>
   (0::nat) \<in> set (boxes (item_at example_store 0)) \<and>
   length (boxes (item_at example_store 0)) = 2 \<and>
   fst (removeBox example_store 0 (JBox 0)) = Inr () \<and>
   boxes (item_at (snd (removeBox example_store 0 (JBox 0))) 0) = [1] \<and>
   Box_remove example_store 0 = removeBox example_store 0 (JBox 0)"
proof -
  have r: "example_store = run example_calls"
    by (simp add: run_example_calls)
  have l1: "(1::nat) < length (item_heap example_store)"
    and l0: "(0::nat) < length (item_heap example_store)"
    by (simp_all add: example_store_def)
  have b1: "boxes (item_at example_store 1) = [2]" and b0: "boxes (item_at example_store 0) = [0, 1]"
    by (simp_all add: example_store_def item_at_def)
  have m1: "(2::nat) \<in> set (boxes (item_at example_store 1))"
    and m0: "(0::nat) \<in> set (boxes (item_at example_store 0))"
    by (simp_all add: example_store_def item_at_def)
  note one = C2_removeBox [OF r l1 m1]
  note two = C2_removeBox [OF r l0 m0]
  show ?thesis
    using r l1 m1 m0 b1 b0 one two by simp
qed

text \<open>Valid descriptors that are two-element arrays.\<close>

lemma box_descriptor_ok_pair:
  "box_descriptor_ok (JArr [q, d]) = (isPositiveInt q \<and> isNonEmptyString d)"
  by (simp add: box_descriptor_ok_def)

lemma descriptor_box_pair:
  "descriptor_box i (JArr [q, d]) = \<lparr>description = str_val d, qty = num_val q, parentItem = i\<rparr>"
  by (simp add: descriptor_box_def descriptor_part_def)

text \<open>
  C10. \<open>addBoxes\<close> is not atomic: when the first \<open>k\<close> descriptors are valid and the next
  one is not, the call throws, and the \<open>k\<close> boxes made from the valid prefix are in the
  store and in the item's set, after the boxes it had (for every \<open>k\<close>, so also for
  \<open>k \<ge> 1\<close>).
\<close>

theorem C10_addBoxes_not_atomic:
  assumes "s = run ks" and "i < length (item_heap s)"
    and "list_all box_descriptor_ok vs" and "\<not> box_descriptor_ok bad"
  shows "(\<exists>err. fst (addBoxes s i (vs @ bad # rest)) = Inl err) \<and>
         boxes (item_at (snd (addBoxes s i (vs @ bad # rest))) i) =
           boxes (item_at s i) @ [length (box_heap s) ..< length (box_heap s) + length vs] \<and>
         length (boxes (item_at (snd (addBoxes s i (vs @ bad # rest))) i)) =
           length (boxes (item_at s i)) + length vs \<and>
         box_heap (snd (addBoxes s i (vs @ bad # rest))) =
           box_heap s @ map (descriptor_box i) vs"
proof -
  have wf: "wf_store s" using assms(1) run_wf by simp
  then have bound: "\<forall>b \<in> set (boxes (item_at s i)). b < length (box_heap s)"
    using assms(2) by (auto simp: wf_store_def item_ok_def)
  have "addBoxes s i (vs @ bad # rest) = addBoxes_forEach (with_boxes s i vs) i (bad # rest)"
    using addBoxes_forEach_ok_prefix [OF assms(2) bound assms(3), of "bad # rest"]
    by (simp add: addBoxes_def)
  moreover obtain err where
    "addBoxes_forEach (with_boxes s i vs) i (bad # rest) = (Inl err, with_boxes s i vs)"
    using addBoxes_forEach_bad_step [OF assms(4)] by blast
  ultimately have res: "addBoxes s i (vs @ bad # rest) = (Inl err, with_boxes s i vs)"
    by simp
  show ?thesis
    using assms(2) by (simp add: res with_boxes_item_at with_boxes_heaps)
qed

theorem C10_addBoxes_not_atomic_witness:
  "example_store = run example_calls \<and>
   (1::nat) < length (item_heap example_store) \<and>
   list_all box_descriptor_ok [JArr [JNum 2, JStr ''lid'']] \<and>
   \<not> box_descriptor_ok (JArr [JNum 0, JStr ''base'']) \<and>
   fst (addBoxes example_store 1 [JArr [JNum 2, JStr ''lid''], JArr [JNum 0, JStr ''base'']]) =
     Inl (InvalidArgument ''box.qty'') \<and>
   boxes (item_at example_store 1) = [2] \<and>
   boxes (item_at (snd (addBoxes example_store 1
       [JArr [JNum 2, JStr ''lid''], JArr [JNum 0, JStr ''base'']])) 1) = [2, 3] \<and>
   box_heap (snd (addBoxes example_store 1
       [JArr [JNum 2, JStr ''lid''], JArr [JNum 0, JStr ''base'']])) =
     box_heap example_store @ [\<lparr>description = ''lid'', qty = 2, parentItem = 1\<rparr>]"
proof -
  have r: "example_store = run example_calls"
    by (simp add: run_example_calls)
  have l: "(1::nat) < length (item_heap example_store)"
    by (simp add: example_store_def)
  have ok: "list_all box_descriptor_ok [JArr [JNum 2, JStr ''lid'']]" by code_simp
  have bad: "\<not> box_descriptor_ok (JArr [JNum 0, JStr ''base''])" by code_simp
  have e: "fst (addBoxes example_store 1
      [JArr [JNum 2, JStr ''lid''], JArr [JNum 0, JStr ''base'']]) =
     Inl (InvalidArgument ''box.qty'')" by code_simp
  have b: "boxes (item_at example_store 1) = [2]" "length (box_heap example_store) = 3"
    by (simp_all add: example_store_def item_at_def)
  show ?thesis
    using r l ok bad e b C10_addBoxes_not_atomic [OF r l ok bad, of "[]"]
    by (simp add: descriptor_box_pair)
qed

section \<open>Container: construction from raw descriptors\<close>

text \<open>
  \<open>addItems\<close> passes \<open>e.boxes\<close> as the single rest argument of the \<open>Item\<close> constructor, so
  \<open>addBoxes\<close> sees one descriptor, the whole list, and reads its first element as the
  quantity. A raw descriptor whose \<open>boxes\<close> is a list of pairs is therefore rejected.
\<close>

lemma Container_new_box_list_rejected:
  assumes "\<not> instanceof_Item e"
    and "js_get e ''collection'' = Inr co" and "isNonEmptyString co"
    and "js_get e ''item_name'' = Inr nm" and "isNonEmptyString nm"
    and "js_get e ''item_id'' = Inr k" and "isPositiveInt k"
    and "js_get e ''boxes'' = Inr (JArr (JArr p # ps))"
  shows "Container_new s (e # es) = (Inl (invalid_argument ''box.qty'' (JArr p)), s)"
proof -
  have q: "\<not> isPositiveInt (JArr p)"
    by (simp add: isPositiveInt_def)
  have "Item_new s' co nm k [JArr (JArr p # ps)] =
      (Inl (invalid_argument ''box.qty'' (JArr p)), s')" for s'
    using assms(3,5,7) q
    by (simp add: Item_new_def Item_collection_setter_def Item_item_name_setter_def
        Item_item_id_setter_def Let_def addBoxes_def Box_new_def Box_qty_setter_def)
  then show ?thesis
    using assms(1,2,4,6,8) by (simp add: Container_new_def addItems_def Let_def)
qed

text \<open>
  Whenever the constructor of \<open>Container\<close> returns on raw descriptors, the \<open>obj\<close> view holds
  one new item per descriptor, in order, with the descriptor's trimmed \<open>collection\<close> and
  \<open>item_name\<close> and its \<open>item_id\<close>.
\<close>

lemma Item_new_Inr_heaps:
  assumes "Item_new s c n k bs = (Inr i, s')"
  shows "item_heap s' = item_heap s @
           [\<lparr>collection = trim (str_val c), item_name = trim (str_val n), item_id = num_val k,
             boxes = [length (box_heap s) ..< length (box_heap s) + length bs]\<rparr>]"
    and "container_heap s' = container_heap s"
  using Item_new_Inr(1,7) [OF assms]
  by (simp_all add: with_boxes_def item_at_def)

lemma addItems_forEach_raw:
  assumes "addItems_forEach s c es = (Inr (), s')"
    and "list_all (\<lambda>e. \<not> instanceof_Item e) es"
    and "c < length (container_heap s)"
    and "\<forall>i \<in> set (itemList (container_at s c)). i < length (item_heap s)"
  shows "itemList (container_at s' c) =
           itemList (container_at s c) @
             [length (item_heap s) ..< length (item_heap s) + length es] \<and>
         length (item_heap s') = length (item_heap s) + length es \<and>
         (\<forall>j < length (item_heap s). item_at s' j = item_at s j) \<and>
         (\<forall>k < length es.
            collection (item_at s' (length (item_heap s) + k)) =
              trim (str_val (raw_field (es ! k) ''collection'')) \<and>
            item_name (item_at s' (length (item_heap s) + k)) =
              trim (str_val (raw_field (es ! k) ''item_name'')) \<and>
            item_id (item_at s' (length (item_heap s) + k)) =
              num_val (raw_field (es ! k) ''item_id''))"
  using assms
proof (induction es arbitrary: s)
  case Nil
  then show ?case by simp
next
  case (Cons e es)
  let ?n = "length (item_heap s)"
  have raw: "\<not> instanceof_Item e" and raws: "list_all (\<lambda>e. \<not> instanceof_Item e) es"
    using Cons.prems(2) by simp_all
  from Cons.prems(1) raw obtain co nm k bx where g: "js_get e ''collection'' = Inr co"
    "js_get e ''item_name'' = Inr nm" "js_get e ''item_id'' = Inr k"
    "js_get e ''boxes'' = Inr bx"
    by (auto split: sum.splits)
  obtain r s1 where new: "Item_new s co nm k [bx] = (r, s1)"
    by (cases "Item_new s co nm k [bx]")
  with Cons.prems(1) raw g obtain item where r: "r = Inr item"
    by (cases r) auto
  let ?s2 = "update_container s1 c (\<lambda>co. co\<lparr>itemList := Set_add item (itemList co)\<rparr>)"
  have rest: "addItems_forEach ?s2 c es = (Inr (), s')"
    using Cons.prems(1) raw g new r by simp
  have item: "item = ?n"
    using Item_new_Inr(1) new r by blast
  note heaps = Item_new_Inr_heaps [OF new [unfolded r]]
  have fresh: "item \<notin> set (itemList (container_at s c))"
    using Cons.prems(4) item by auto
  have list2: "itemList (container_at ?s2 c) = itemList (container_at s c) @ [?n]"
    using Cons.prems(3) fresh item
    by (simp add: update_container_def container_at_def heaps Set_add_def)
  have ih2: "item_heap ?s2 = item_heap s1"
    by (simp add: update_container_def)
  have len2: "length (item_heap ?s2) = Suc ?n"
    by (simp add: ih2 heaps)
  have c2: "c < length (container_heap ?s2)"
    using Cons.prems(3) by (simp add: update_container_def heaps)
  have b2: "\<forall>i \<in> set (itemList (container_at ?s2 c)). i < length (item_heap ?s2)"
    using Cons.prems(4) by (auto simp: list2 len2)
  note IH = Cons.IH [OF rest raws c2 b2]
  have old2: "item_at ?s2 j = item_at s j" if "j < ?n" for j
    using that by (simp add: item_at_def ih2 heaps nth_append)
  have new2: "collection (item_at ?s2 ?n) = trim (str_val co)"
    "item_name (item_at ?s2 ?n) = trim (str_val nm)"
    "item_id (item_at ?s2 ?n) = num_val k"
    by (simp_all add: item_at_def ih2 heaps)
  have keep: "item_at s' j = item_at ?s2 j" if "j < Suc ?n" for j
    using IH that len2 by simp
  have a: "itemList (container_at s' c) =
      itemList (container_at s c) @ [?n ..< ?n + length (e # es)]"
    using IH by (simp add: list2 len2 upt_conv_Cons del: upt_Suc)
  have b: "length (item_heap s') = ?n + length (e # es)"
    using IH by (simp add: len2)
  have c: "\<forall>j < ?n. item_at s' j = item_at s j"
    using keep old2 by simp
  have d: "collection (item_at s' (?n + k')) =
              trim (str_val (raw_field ((e # es) ! k') ''collection'')) \<and>
           item_name (item_at s' (?n + k')) =
              trim (str_val (raw_field ((e # es) ! k') ''item_name'')) \<and>
           item_id (item_at s' (?n + k')) =
              num_val (raw_field ((e # es) ! k') ''item_id'')"
    if "k' < length (e # es)" for k'
  proof (cases k')
    case 0
    then show ?thesis
      using keep [of ?n] new2 g by (simp add: raw_field_def)
  next
    case (Suc m)
    then have "m < length es" using that by simp
    then show ?thesis
      using IH Suc by (simp add: len2)
  qed
  from a b c d show ?case by blast
qed

lemma Container_new_round_trip:
  assumes "Container_new s es = (Inr c, s')"
    and "list_all (\<lambda>e. \<not> instanceof_Item e) es"
  shows "getContainerData s' c (JStr ''obj'') =
           Inr (JArr (map JItem [length (item_heap s) ..< length (item_heap s) + length es]))"
    and "k < length es \<Longrightarrow>
           collection (item_at s' (length (item_heap s) + k)) =
             trim (str_val (raw_field (es ! k) ''collection'')) \<and>
           item_name (item_at s' (length (item_heap s) + k)) =
             trim (str_val (raw_field (es ! k) ''item_name'')) \<and>
           item_id (item_at s' (length (item_heap s) + k)) =
             num_val (raw_field (es ! k) ''item_id'')"
proof -
  let ?s1 = "s\<lparr>container_heap := container_heap s @ [\<lparr>itemList = []\<rparr>]\<rparr>"
  let ?c = "length (container_heap s)"
  from assms(1) have c: "c = ?c" and run: "addItems_forEach ?s1 ?c es = (Inr (), s')"
    by (auto simp: Container_new_def addItems_def Let_def split: prod.splits sum.splits)
  have c1: "?c < length (container_heap ?s1)" by simp
  have b1: "\<forall>i \<in> set (itemList (container_at ?s1 ?c)). i < length (item_heap ?s1)"
    by (simp add: container_at_def)
  note facts = addItems_forEach_raw [OF run assms(2) c1 b1]
  have "itemList (container_at s' c) = [length (item_heap s) ..< length (item_heap s) + length es]"
    using facts by (simp add: c container_at_def)
  then show "getContainerData s' c (JStr ''obj'') =
           Inr (JArr (map JItem [length (item_heap s) ..< length (item_heap s) + length es]))"
    by (simp add: getContainerData_JStr trim_format_names toLowerCase_format_names
        Container_getDataAsObj_def)
  show "k < length es \<Longrightarrow>
           collection (item_at s' (length (item_heap s) + k)) =
             trim (str_val (raw_field (es ! k) ''collection'')) \<and>
           item_name (item_at s' (length (item_heap s) + k)) =
             trim (str_val (raw_field (es ! k) ''item_name'')) \<and>
           item_id (item_at s' (length (item_heap s) + k)) =
             num_val (raw_field (es ! k) ''item_id'')"
    using facts by simp
qed

text \<open>
  C4. The round trip needs the container to be constructed. On a raw descriptor with two
  box pairs the constructor of \<open>Container\<close> throws, while the constructor of \<open>Item\<close>
  accepts the same fields with the pairs spread.
\<close>

theorem C4_container_rejects_box_list:
  "Container_new empty_store [list_descriptor] = (Inl (InvalidArgument ''box.qty''), empty_store) \<and>
   fst (Item_new empty_store (JStr ''A'') (JStr ''chair'') (JNum 1)
          [JArr [JNum 5, JStr ''small''], JArr [JNum 10, JStr ''large'']]) = Inr 0"
  by code_simp

end
